theory Spec2Isabelle
  imports Main
begin

section \<open>JavaScript values used by the exporter\<close>

subsection \<open>Numbers\<close>

text \<open>
  A JavaScript Number is an IEEE 754 double.  The model covers the doubles with an
  integer value, the two infinities and NaN: \<open>Fin n\<close> is the double whose value is the
  integer \<open>n\<close>.  Every operation below rounds its exact integer result to the nearest
  double (ties to even, 53 bits of significand), as the hardware does, so that
  \<open>Fin\<close> is only ever produced with a representable value.  Negative zero is
  identified with zero (\<open>===\<close> does not tell them apart).  Numbers with a fractional
  part are outside the model.
\<close>

datatype jsnum = Fin int | PInf | NInf | NaN

text \<open>The distance between neighbouring doubles at magnitude \<open>a\<close> (at least 1 here).\<close>

function ulp :: "nat \<Rightarrow> nat" where
  "ulp a = (if a < 2 ^ 53 then 1 else 2 * ulp (a div 2))"
  by pat_completeness auto
termination
  by (relation "measure (\<lambda>a. a)") auto

declare ulp.simps [simp del]

definition round_double :: "int \<Rightarrow> jsnum" where
  "round_double r =
     (let a = nat \<bar>r\<bar>;
          u = ulp a;
          q = a div u;
          rest = a mod u;
          q' = (if u < 2 * rest \<or> (2 * rest = u \<and> odd q) then q + 1 else q);
          m = q' * u
      in if 2 ^ 1024 \<le> m then (if r < 0 then NInf else PInf)
         else Fin (sgn r * int m))"

text \<open>The binary operators \<open>-\<close> and \<open>+\<close> on Numbers.\<close>

fun js_sub :: "jsnum \<Rightarrow> jsnum \<Rightarrow> jsnum" where
  "js_sub NaN _ = NaN"
| "js_sub _ NaN = NaN"
| "js_sub (Fin a) (Fin b) = round_double (a - b)"
| "js_sub (Fin a) PInf = NInf"
| "js_sub (Fin a) NInf = PInf"
| "js_sub PInf PInf = NaN"
| "js_sub PInf _ = PInf"
| "js_sub NInf NInf = NaN"
| "js_sub NInf _ = NInf"

fun js_add :: "jsnum \<Rightarrow> jsnum \<Rightarrow> jsnum" where
  "js_add NaN _ = NaN"
| "js_add _ NaN = NaN"
| "js_add (Fin a) (Fin b) = round_double (a + b)"
| "js_add (Fin a) PInf = PInf"
| "js_add (Fin a) NInf = NInf"
| "js_add PInf NInf = NaN"
| "js_add PInf _ = PInf"
| "js_add NInf PInf = NaN"
| "js_add NInf _ = NInf"

subsection \<open>Arrays of numbers\<close>

text \<open>
  The coordinates of a GeoJSON geometry are nested arrays of numbers.  The encoder never
  checks how deep the nesting is, so the model keeps it dynamic.  A read that JavaScript
  answers with \<open>undefined\<close> is \<open>None\<close>.
\<close>

datatype jsval = Num jsnum | Arr "jsval list"

text \<open>\<open>v[i]\<close>: an element of an array, \<open>undefined\<close> past its end and on a number.\<close>

fun js_index :: "jsval \<Rightarrow> nat \<Rightarrow> jsval option" where
  "js_index (Arr xs) i = (if i < length xs then Some (xs ! i) else None)"
| "js_index (Num n) i = None"

text \<open>
  ToNumber, applied by \<open>-\<close> to each operand.  \<open>undefined\<close> is NaN.  An array is first
  turned into the string of its elements joined by commas: the empty array gives the empty
  string, which reads as 0; a one-element array reads as its element does; two or more
  elements give a string with a comma, which is no numeric literal.
\<close>

fun to_number_val :: "jsval \<Rightarrow> jsnum" where
  "to_number_val (Num n) = n"
| "to_number_val (Arr []) = Fin 0"
| "to_number_val (Arr [x]) = to_number_val x"
| "to_number_val (Arr (x # y # zs)) = NaN"

definition to_number :: "jsval option \<Rightarrow> jsnum" where
  "to_number v = (case v of None \<Rightarrow> NaN | Some x \<Rightarrow> to_number_val x)"

datatype error = TypeError

section \<open>fromGeoJSON: the delta encoder\<close>

record gj_geometry =
  geometry_type :: string
  coordinates :: "jsval list"

record 'i gj_feature =
  feature_id :: 'i
  geometry :: "gj_geometry option"

record 'i geojson =
  features :: "'i gj_feature list"

record 'i topo_geometry =
  geom_type :: string
  geom_id :: 'i
  geom_arcs :: jsval

record 'i geometry_collection =
  collection_type :: string
  geometries :: "'i topo_geometry list"

record transform =
  scale :: "jsnum list"
  translate :: "jsnum list"

record 'i topology =
  topology_type :: string
  topology_transform :: transform
  objects :: "(string \<times> 'i geometry_collection) list"
  topology_arcs :: "jsval list list"

text \<open>
  The body of \<open>points.forEach((point, pointIndex) => ...)\<close>: the value pushed onto the
  arc at \<open>pointIndex\<close>.
\<close>

definition arc_point :: "jsval list \<Rightarrow> nat \<Rightarrow> jsval" where
  "arc_point points pointIndex =
     (if pointIndex = 0 then points ! pointIndex
      else Arr
        [Num (js_sub (to_number (js_index (points ! pointIndex) 0))
                     (to_number (js_index (points ! (pointIndex - 1)) 0))),
         Num (js_sub (to_number (js_index (points ! pointIndex) 1))
                     (to_number (js_index (points ! (pointIndex - 1)) 1)))])"

text \<open>The arc after the loop: one push per index, in index order.\<close>

definition encode_arc :: "jsval list \<Rightarrow> jsval list" where
  "encode_arc points = map (arc_point points) [0..<length points]"

text \<open>\<open>hasMultiplePaths ? path[0] : path\<close>\<close>

definition path_points :: "bool \<Rightarrow> jsval \<Rightarrow> jsval option" where
  "path_points hasMultiplePaths path = (if hasMultiplePaths then js_index path 0 else Some path)"

text \<open>
  One turn of \<open>coordinates.forEach(path => ...)\<close> up to the finished arc.  Calling
  \<open>forEach\<close> on \<open>undefined\<close> or on a number throws a TypeError.
\<close>

definition encode_path :: "bool \<Rightarrow> jsval \<Rightarrow> error + jsval list" where
  "encode_path hasMultiplePaths path =
     (case path_points hasMultiplePaths path of
        Some (Arr points) \<Rightarrow> Inr (encode_arc points)
      | Some (Num n) \<Rightarrow> Inl TypeError
      | None \<Rightarrow> Inl TypeError)"

text \<open>
  The loop over the paths of one feature.  The state is the shared array \<open>arcs\<close> and the
  feature's own \<open>geometryArcIndices\<close>.
\<close>

fun encode_paths ::
  "bool \<Rightarrow> jsval list \<Rightarrow> jsval list list \<times> nat list \<Rightarrow> error + (jsval list list \<times> nat list)"
where
  "encode_paths hasMultiplePaths [] st = Inr st"
| "encode_paths hasMultiplePaths (path # paths) (arcs, geometryArcIndices) =
     (case encode_path hasMultiplePaths path of
        Inl e \<Rightarrow> Inl e
      | Inr arc \<Rightarrow>
          encode_paths hasMultiplePaths paths
            (arcs @ [arc], geometryArcIndices @ [length (arcs @ [arc]) - 1]))"

definition index_val :: "nat \<Rightarrow> jsval" where
  "index_val i = Num (Fin (int i))"

text \<open>
  The callback of \<open>geoJSON.features.map\<close>.  Reading \<open>coordinates\<close> of a \<open>null\<close>
  geometry throws a TypeError.
\<close>

definition encode_feature ::
  "'i gj_feature \<Rightarrow> jsval list list \<Rightarrow> error + ('i topo_geometry \<times> jsval list list)"
where
  "encode_feature feature arcs =
     (case geometry feature of
        None \<Rightarrow> Inl TypeError
      | Some g \<Rightarrow>
          (let hasMultiplePaths = (1 < length (coordinates g)) in
           case encode_paths hasMultiplePaths (coordinates g) (arcs, []) of
             Inl e \<Rightarrow> Inl e
           | Inr (arcs', geometryArcIndices) \<Rightarrow>
               Inr (\<lparr> geom_type = (if hasMultiplePaths then ''MultiPolygon'' else ''Polygon''),
                      geom_id = feature_id feature,
                      geom_arcs =
                        (if hasMultiplePaths
                         then Arr (map (\<lambda>index. Arr [Arr [index_val index]]) geometryArcIndices)
                         else Arr [Arr (map index_val geometryArcIndices)]) \<rparr>,
                    arcs')))"

fun encode_features ::
  "'i gj_feature list \<Rightarrow> jsval list list \<Rightarrow> error + ('i topo_geometry list \<times> jsval list list)"
where
  "encode_features [] arcs = Inr ([], arcs)"
| "encode_features (feature # rest) arcs =
     (case encode_feature feature arcs of
        Inl e \<Rightarrow> Inl e
      | Inr (g, arcs') \<Rightarrow>
          (case encode_features rest arcs' of
             Inl e \<Rightarrow> Inl e
           | Inr (gs, arcs'') \<Rightarrow> Inr (g # gs, arcs'')))"

text \<open>\<open>objectId || 'states'\<close>: a missing and an empty name both fall back.\<close>

definition object_name :: "string option \<Rightarrow> string" where
  "object_name objectId =
     (case objectId of None \<Rightarrow> ''states'' | Some s \<Rightarrow> if s = [] then ''states'' else s)"

definition fromGeoJSON :: "'i geojson \<Rightarrow> string option \<Rightarrow> error + 'i topology" where
  "fromGeoJSON geoJSON objectId =
     (case encode_features (features geoJSON) [] of
        Inl e \<Rightarrow> Inl e
      | Inr (gs, arcs') \<Rightarrow>
          Inr \<lparr> topology_type = ''Topology'',
                topology_transform = \<lparr> scale = [Fin 1, Fin 1], translate = [Fin 0, Fin 0] \<rparr>,
                objects = [(object_name objectId,
                            \<lparr> collection_type = ''GeometryCollection'', geometries = gs \<rparr>)],
                topology_arcs = arcs' \<rparr>)"

section \<open>toTopoJson: the primary exporter\<close>

subsection \<open>Numbers: Math.max and the remainder\<close>

fun js_max :: "jsnum \<Rightarrow> jsnum \<Rightarrow> jsnum" where
  "js_max NaN _ = NaN"
| "js_max _ NaN = NaN"
| "js_max PInf _ = PInf"
| "js_max _ PInf = PInf"
| "js_max NInf b = b"
| "js_max a NInf = a"
| "js_max (Fin a) (Fin b) = Fin (max a b)"

text \<open>
  \<open>a % b\<close>: the remainder has the sign of the dividend; it is NaN for an infinite dividend
  and for a zero divisor, and the dividend itself for an infinite divisor.
\<close>

fun js_mod :: "jsnum \<Rightarrow> jsnum \<Rightarrow> jsnum" where
  "js_mod NaN _ = NaN"
| "js_mod _ NaN = NaN"
| "js_mod PInf _ = NaN"
| "js_mod NInf _ = NaN"
| "js_mod (Fin a) PInf = Fin a"
| "js_mod (Fin a) NInf = Fin a"
| "js_mod (Fin a) (Fin b) = (if b = 0 then NaN else Fin (sgn a * (\<bar>a\<bar> mod \<bar>b\<bar>)))"

subsection \<open>The object \<open>tilesByState\<close>\<close>

text \<open>
  A tile is \<open>{id, position: {x, y}}\<close>; the position is the pair \<open>(x, y)\<close>.  Region ids are
  strings.
\<close>

record tile =
  tile_id :: string
  position :: "jsnum \<times> jsnum"

text \<open>
  \<open>tilesByState\<close> starts as \<open>{}\<close>.  Its own properties are kept in the order of their
  creation; a value is an array of tiles, or \<open>null\<close> (\<open>None\<close>).  Being an ordinary object,
  it also answers to the property names it inherits from \<open>Object.prototype\<close>.
\<close>

type_synonym tiles_by_state = "(string \<times> tile list option) list"

definition object_prototype_keys :: "string list" where
  "object_prototype_keys =
     [''constructor'', ''hasOwnProperty'', ''isPrototypeOf'', ''propertyIsEnumerable'',
      ''toLocaleString'', ''toString'', ''valueOf'', ''__proto__'', ''__defineGetter__'',
      ''__defineSetter__'', ''__lookupGetter__'', ''__lookupSetter__'']"

datatype 'v property = Own 'v | Inherited | Undefined

text \<open>\<open>obj[key]\<close>\<close>

definition get_property :: "(string \<times> 'v) list \<Rightarrow> string \<Rightarrow> 'v property" where
  "get_property obj key =
     (case map_of obj key of
        Some v \<Rightarrow> Own v
      | None \<Rightarrow> if key \<in> set object_prototype_keys then Inherited else Undefined)"

text \<open>
  \<open>obj[key] = v\<close> for a key that is not inherited: an existing own property keeps its
  place, a new one goes last.
\<close>

fun set_property :: "string \<Rightarrow> 'v \<Rightarrow> (string \<times> 'v) list \<Rightarrow> (string \<times> 'v) list" where
  "set_property key v [] = [(key, v)]"
| "set_property key v (p # ps) =
     (if fst p = key then (key, v) # ps else p # set_property key v ps)"

text \<open>
  The callback of \<open>tiles.forEach\<close>.  An undefined or \<open>null\<close> entry is falsy and is replaced
  by a fresh array before the push.  An inherited value is a function or an object: it is
  truthy, so it is kept, and calling its missing \<open>push\<close> throws a TypeError.
\<close>

definition add_tile :: "tiles_by_state \<Rightarrow> tile \<Rightarrow> error + tiles_by_state" where
  "add_tile tilesByState tile =
     (case get_property tilesByState (tile_id tile) of
        Undefined \<Rightarrow> Inr (set_property (tile_id tile) (Some ([] @ [tile])) tilesByState)
      | Own None \<Rightarrow> Inr (set_property (tile_id tile) (Some ([] @ [tile])) tilesByState)
      | Own (Some stateTiles) \<Rightarrow>
          Inr (set_property (tile_id tile) (Some (stateTiles @ [tile])) tilesByState)
      | Inherited \<Rightarrow> Inl TypeError)"

fun add_tiles :: "tiles_by_state \<Rightarrow> tile list \<Rightarrow> error + tiles_by_state" where
  "add_tiles tilesByState [] = Inr tilesByState"
| "add_tiles tilesByState (tile # rest) =
     (case add_tile tilesByState tile of
        Inl e \<Rightarrow> Inl e
      | Inr tilesByState' \<Rightarrow> add_tiles tilesByState' rest)"

text \<open>
  The callback of \<open>dataset.forEach\<close>: \<open>if (!tilesByState[d[0]]) { tilesByState[d[0]] = null }\<close>.
  Arrays and inherited values are truthy.
\<close>

definition add_dataset_entry :: "tiles_by_state \<Rightarrow> string \<times> 'm \<Rightarrow> tiles_by_state" where
  "add_dataset_entry tilesByState d =
     (case get_property tilesByState (fst d) of
        Undefined \<Rightarrow> set_property (fst d) None tilesByState
      | Own None \<Rightarrow> set_property (fst d) None tilesByState
      | Own (Some stateTiles) \<Rightarrow> tilesByState
      | Inherited \<Rightarrow> tilesByState)"

definition aggregate :: "tile list \<Rightarrow> (string \<times> 'm) list \<Rightarrow> error + tiles_by_state" where
  "aggregate tiles dataset =
     (case add_tiles [] tiles of
        Inl e \<Rightarrow> Inl e
      | Inr tilesByState \<Rightarrow> Inr (foldl add_dataset_entry tilesByState dataset))"

subsection \<open>Object.keys\<close>

text \<open>
  \<open>Object.keys\<close> lists the own keys that are array indices first, in ascending numeric
  order, and the other keys after them in the order of their creation.  An array index is
  the decimal numeral, without a leading zero, of a number below \<open>2 ^ 32 - 1\<close>.
\<close>

definition is_digit :: "char \<Rightarrow> bool" where
  "is_digit c = (48 \<le> (of_char c :: nat) \<and> (of_char c :: nat) \<le> 57)"

definition digits_value :: "string \<Rightarrow> nat" where
  "digits_value s = foldl (\<lambda>n c. 10 * n + (of_char c - 48)) 0 s"

definition is_array_index :: "string \<Rightarrow> bool" where
  "is_array_index s =
     (case s of
        [] \<Rightarrow> False
      | c # cs \<Rightarrow>
          list_all is_digit s \<and> (if c = CHR ''0'' then cs = [] else True) \<and>
          digits_value s < 2 ^ 32 - 1)"

definition object_keys :: "(string \<times> 'v) list \<Rightarrow> string list" where
  "object_keys obj =
     sort_key digits_value (filter is_array_index (map fst obj)) @
     filter (\<lambda>key. \<not> is_array_index key) (map fst obj)"

subsection \<open>Features\<close>

datatype 'n geometry_value =
    Polygon "('n \<times> 'n) list list"
  | MultiPolygon "('n \<times> 'n) list list list"

record ('name, 'm) feature_properties =
  name :: 'name
  tilegramValue :: 'm

record ('n, 'name, 'm) feature =
  feature_type :: string
  feature_geometry :: "'n geometry_value option"
  region_id :: string
  properties :: "('name, 'm) feature_properties"

text \<open>
  \<open>Array.prototype.map\<close> with a callback that may throw: the first exception ends the
  call.
\<close>

fun map_result :: "('a \<Rightarrow> error + 'b) \<Rightarrow> 'a list \<Rightarrow> error + 'b list" where
  "map_result f [] = Inr []"
| "map_result f (x # xs) =
     (case f x of
        Inl e \<Rightarrow> Inl e
      | Inr y \<Rightarrow> (case map_result f xs of Inl e \<Rightarrow> Inl e | Inr ys \<Rightarrow> Inr (y # ys)))"

text \<open>
  The callback of \<open>stateTiles.map\<close>.  \<open>tileCenterPoint\<close> and \<open>getPointsAround\<close> belong to
  the grid geometry, which is not part of this file; they are parameters.  Reading
  \<open>hexagonPoints[0][0]\<close> of an empty array throws a TypeError.
\<close>

definition tile_ring ::
  "(jsnum \<times> jsnum \<Rightarrow> 'c) \<Rightarrow> ('c \<Rightarrow> bool \<Rightarrow> ('n \<times> 'n) list) \<Rightarrow> jsnum \<Rightarrow> tile \<Rightarrow>
     error + ('n \<times> 'n) list"
where
  "tile_ring tileCenterPoint getPointsAround maxTileY tile =
     (let center = tileCenterPoint
            (fst (position tile),
             js_sub (js_sub maxTileY (snd (position tile))) (js_mod maxTileY (Fin 2)));
          hexagonPoints = getPointsAround center True
      in case hexagonPoints of
           [] \<Rightarrow> Inl TypeError
         | first # rest \<Rightarrow> Inr (hexagonPoints @ [(fst first, snd first)]))"

definition state_geometry ::
  "(jsnum \<times> jsnum \<Rightarrow> 'c) \<Rightarrow> ('c \<Rightarrow> bool \<Rightarrow> ('n \<times> 'n) list) \<Rightarrow> jsnum \<Rightarrow> tile list option \<Rightarrow>
     error + 'n geometry_value option"
where
  "state_geometry tileCenterPoint getPointsAround maxTileY stateTiles =
     (case stateTiles of
        None \<Rightarrow> Inr None
      | Some ts \<Rightarrow>
          (case map_result (tile_ring tileCenterPoint getPointsAround maxTileY) ts of
             Inl e \<Rightarrow> Inl e
           | Inr tilesCoordinates \<Rightarrow>
               Inr (Some (if length tilesCoordinates \<noteq> 1
                          then MultiPolygon (map (\<lambda>t. [t]) tilesCoordinates)
                          else Polygon tilesCoordinates))))"

text \<open>
  The callback of \<open>Object.keys(tilesByState).map\<close>.  \<open>geoCodeToName\<close> is the table of the
  geography resource, another parameter: \<open>None\<close> where it has no entry, so that reading
  \<open>.name\<close> throws.  So does reading \<open>[1]\<close> of the \<open>undefined\<close> that \<open>dataset.find\<close> returns
  when no entry matches.
\<close>

definition state_feature ::
  "(jsnum \<times> jsnum \<Rightarrow> 'c) \<Rightarrow> ('c \<Rightarrow> bool \<Rightarrow> ('n \<times> 'n) list) \<Rightarrow> (string \<Rightarrow> 'name option) \<Rightarrow>
   (string \<times> 'm) list \<Rightarrow> jsnum \<Rightarrow> tiles_by_state \<Rightarrow> string \<Rightarrow> error + ('n, 'name, 'm) feature"
where
  "state_feature tileCenterPoint getPointsAround geoCodeToName dataset maxTileY tilesByState stateId =
     (case get_property tilesByState stateId of
        Undefined \<Rightarrow> Inl TypeError
      | Inherited \<Rightarrow> Inl TypeError
      | Own stateTiles \<Rightarrow>
          (case state_geometry tileCenterPoint getPointsAround maxTileY stateTiles of
             Inl e \<Rightarrow> Inl e
           | Inr g \<Rightarrow>
               (case geoCodeToName stateId of
                  None \<Rightarrow> Inl TypeError
                | Some entry_name \<Rightarrow>
                    (case find (\<lambda>d. fst d = stateId) dataset of
                       None \<Rightarrow> Inl TypeError
                     | Some d \<Rightarrow>
                         Inr \<lparr> feature_type = ''Feature'',
                               feature_geometry = g,
                               region_id = stateId,
                               properties = \<lparr> name = entry_name, tilegramValue = snd d \<rparr> \<rparr>))))"

definition max_tile_y :: "tile list \<Rightarrow> jsnum" where
  "max_tile_y tiles = foldl (\<lambda>m tile. js_max m (snd (position tile))) NInf tiles"

text \<open>Lines 24 to 80: the features handed to the topology builder.\<close>

definition tile_features ::
  "(jsnum \<times> jsnum \<Rightarrow> 'c) \<Rightarrow> ('c \<Rightarrow> bool \<Rightarrow> ('n \<times> 'n) list) \<Rightarrow> (string \<Rightarrow> 'name option) \<Rightarrow>
   tile list \<Rightarrow> (string \<times> 'm) list \<Rightarrow> error + ('n, 'name, 'm) feature list"
where
  "tile_features tileCenterPoint getPointsAround geoCodeToName tiles dataset =
     (let maxTileY = max_tile_y tiles in
      case aggregate tiles dataset of
        Inl e \<Rightarrow> Inl e
      | Inr tilesByState \<Rightarrow>
          map_result
            (state_feature tileCenterPoint getPointsAround geoCodeToName dataset maxTileY
               tilesByState)
            (object_keys tilesByState))"

record ('mpt, 'v, 'd, 'g) topology_properties =
  tilegramMetricPerTile :: 'mpt
  tilegramVersion :: 'v
  tilegramTileSize :: 'd
  tilegramGeography :: 'g

record ('n, 'name, 'm) feature_collection =
  fc_type :: string
  fc_features :: "('n, 'name, 'm) feature list"

definition OBJECT_ID :: string where
  "OBJECT_ID = ''tiles''"

text \<open>
  \<open>toTopoJson\<close>.  The topology builder (\<open>topology\<close> of topojson), the version string of
  package.json, the grid geometry and the geography resource are parameters.  The result
  is the builder's output with the \<open>properties\<close> attached to it.
\<close>

definition toTopoJson ::
  "((string \<times> ('n, 'name, 'm) feature_collection) list \<Rightarrow> 'topo) \<Rightarrow> 'v \<Rightarrow> 'd \<Rightarrow>
   (jsnum \<times> jsnum \<Rightarrow> 'c) \<Rightarrow> ('c \<Rightarrow> bool \<Rightarrow> ('n \<times> 'n) list) \<Rightarrow> ('g \<Rightarrow> string \<Rightarrow> 'name option) \<Rightarrow>
   tile list \<Rightarrow> (string \<times> 'm) list \<Rightarrow> 'mpt \<Rightarrow> 'g \<Rightarrow>
   error + ('topo \<times> ('mpt, 'v, 'd, 'g) topology_properties)"
where
  "toTopoJson topology version getTileDimensions tileCenterPoint getPointsAround getGeoCodeHash
     tiles dataset metricPerTile geography =
     (case tile_features tileCenterPoint getPointsAround (getGeoCodeHash geography) tiles dataset of
        Inl e \<Rightarrow> Inl e
      | Inr fs \<Rightarrow>
          Inr (topology [(OBJECT_ID, \<lparr> fc_type = ''FeatureCollection'', fc_features = fs \<rparr>)],
               \<lparr> tilegramMetricPerTile = metricPerTile,
                 tilegramVersion = version,
                 tilegramTileSize = getTileDimensions,
                 tilegramGeography = geography \<rparr>))"

section \<open>Vocabulary of the properties\<close>

text \<open>
  The definitions of this section are not code of the exporter.  They name what the
  properties below talk about, and fix the inputs on which the properties are tried.
\<close>

subsection \<open>Arcs of the delta encoder\<close>

text \<open>
  The number of coordinate paths of a feature, and the number of arcs pushed before
  feature \<open>k\<close> is reached.
\<close>

definition num_paths :: "'i gj_feature \<Rightarrow> nat" where
  "num_paths feature = (case geometry feature of None \<Rightarrow> 0 | Some g \<Rightarrow> length (coordinates g))"

definition arc_offset :: "'i gj_feature list \<Rightarrow> nat \<Rightarrow> nat" where
  "arc_offset fs k = sum_list (map num_paths (take k fs))"

text \<open>
  Modelled from the spec: the decoder of an arc.  The source has no decoder; the
  specification describes it as the prefix sum of the displacements onto the absolute first
  point, taken left to right.  The sum is JavaScript's \<open>+\<close> on Numbers.
\<close>

definition coord :: "jsval \<Rightarrow> nat \<Rightarrow> jsnum" where
  "coord p i = to_number (js_index p i)"

fun decode_from :: "jsval \<Rightarrow> jsval list \<Rightarrow> jsval list" where
  "decode_from previous [] = []"
| "decode_from previous (d # ds) =
     (let p = Arr [Num (js_add (coord previous 0) (coord d 0)),
                   Num (js_add (coord previous 1) (coord d 1))]
      in p # decode_from p ds)"

fun decode_arc :: "jsval list \<Rightarrow> jsval list" where
  "decode_arc [] = []"
| "decode_arc (first # ds) = first # decode_from first ds"

text \<open>
  A point \<open>[x, y]\<close> with integer coordinates, and the range of coordinates in which
  differences and sums of two coordinates are doubles again.
\<close>

definition point_val :: "int \<times> int \<Rightarrow> jsval" where
  "point_val p = Arr [Num (Fin (fst p)), Num (Fin (snd p))]"

definition safe_point :: "int \<times> int \<Rightarrow> bool" where
  "safe_point p = (\<bar>fst p\<bar> \<le> 2 ^ 52 \<and> \<bar>snd p\<bar> \<le> 2 ^ 52)"

text \<open>The displacements of an arc, by recursion over the points; used in the proofs.\<close>

fun deltas :: "jsval \<Rightarrow> jsval list \<Rightarrow> jsval list" where
  "deltas previous [] = []"
| "deltas previous (p # ps) =
     Arr [Num (js_sub (to_number (js_index p 0)) (to_number (js_index previous 0))),
          Num (js_sub (to_number (js_index p 1)) (to_number (js_index previous 1)))]
     # deltas p ps"

subsection \<open>Inputs of the delta encoder\<close>

definition example_ring :: "jsval list" where
  "example_ring = map point_val [(0, 0), (4, 0), (4, 3), (0, 0)]"

definition example_part :: "jsval list" where
  "example_part = map point_val [(10, 10), (15, 10), (10, 10)]"

definition example_geojson :: "nat geojson" where
  "example_geojson =
     \<lparr> features =
         [\<lparr> feature_id = 7,
            geometry = Some \<lparr> geometry_type = ''Polygon'', coordinates = [Arr example_ring] \<rparr> \<rparr>,
          \<lparr> feature_id = 9,
            geometry = Some \<lparr> geometry_type = ''MultiPolygon'',
                              coordinates = [Arr [Arr example_ring], Arr [Arr example_part]] \<rparr> \<rparr>] \<rparr>"

definition example_topology :: "nat topology" where
  "example_topology =
     \<lparr> topology_type = ''Topology'',
       topology_transform = \<lparr> scale = [Fin 1, Fin 1], translate = [Fin 0, Fin 0] \<rparr>,
       objects =
         [(''states'',
           \<lparr> collection_type = ''GeometryCollection'',
             geometries =
               [\<lparr> geom_type = ''Polygon'', geom_id = 7, geom_arcs = Arr [Arr [Num (Fin 0)]] \<rparr>,
                \<lparr> geom_type = ''MultiPolygon'', geom_id = 9,
                  geom_arcs = Arr [Arr [Arr [Num (Fin 1)]], Arr [Arr [Num (Fin 2)]]] \<rparr>] \<rparr>)],
       topology_arcs =
         [map point_val [(0, 0), (4, 0), (0, 3), (- 4, - 3)],
          map point_val [(0, 0), (4, 0), (0, 3), (- 4, - 3)],
          map point_val [(10, 10), (5, 0), (- 5, 0)]] \<rparr>"

definition example_wide_ring :: "jsval list" where
  "example_wide_ring =
     map point_val [(9007199254740991, 0), (- 2, 0), (0, 5), (9007199254740991, 0)]"

definition example_wide_geojson :: "nat geojson" where
  "example_wide_geojson =
     \<lparr> features =
         [\<lparr> feature_id = 1,
            geometry = Some \<lparr> geometry_type = ''Polygon'',
                              coordinates = [Arr example_wide_ring] \<rparr> \<rparr>] \<rparr>"

definition example_degenerate_geojson :: "nat geojson" where
  "example_degenerate_geojson =
     \<lparr> features =
         [\<lparr> feature_id = 1,
            geometry = Some \<lparr> geometry_type = ''Polygon'', coordinates = [] \<rparr> \<rparr>,
          \<lparr> feature_id = 2,
            geometry = Some \<lparr> geometry_type = ''Polygon'',
                              coordinates = [Arr [point_val (1, 2)]] \<rparr> \<rparr>,
          \<lparr> feature_id = 3,
            geometry = Some \<lparr> geometry_type = ''Polygon'', coordinates = [Arr []] \<rparr> \<rparr>] \<rparr>"


subsection \<open>Aggregation\<close>

text \<open>
  The elements of a list in the order of their first appearance, each once: the insertion
  order of keys.  The tiles of one region, in input order.
\<close>

fun first_appearances :: "'a list \<Rightarrow> 'a list" where
  "first_appearances [] = []"
| "first_appearances (k # ks) = k # first_appearances (filter (\<lambda>k'. k' \<noteq> k) ks)"

definition tiles_of :: "string \<Rightarrow> tile list \<Rightarrow> tile list" where
  "tiles_of k tiles = filter (\<lambda>t. tile_id t = k) tiles"

text \<open>Used in the proofs: the keys after one assignment, and the array a key held before.\<close>

definition add_key :: "'a list \<Rightarrow> 'a \<Rightarrow> 'a list" where
  "add_key seen k = (if k \<in> set seen then seen else seen @ [k])"

definition prior_tiles :: "tiles_by_state \<Rightarrow> string \<Rightarrow> tile list" where
  "prior_tiles obj k = (case map_of obj k of Some (Some ts) \<Rightarrow> ts | _ \<Rightarrow> [])"

text \<open>A ring is closed when it has at least two points and ends where it starts.\<close>

definition closed_ring :: "('n \<times> 'n) list \<Rightarrow> bool" where
  "closed_ring ring = (case ring of [] \<Rightarrow> False | first # rest \<Rightarrow> rest \<noteq> [] \<and> last ring = first)"

subsection \<open>Inputs of the primary exporter\<close>

definition example_tiles :: "tile list" where
  "example_tiles =
     [\<lparr> tile_id = ''X'', position = (Fin 0, Fin 0) \<rparr>,
      \<lparr> tile_id = ''X'', position = (Fin 1, Fin 0) \<rparr>,
      \<lparr> tile_id = ''10'', position = (Fin 0, Fin 1) \<rparr>]"

definition example_dataset :: "(string \<times> nat) list" where
  "example_dataset = [(''X'', 5), (''10'', 7), (''A'', 1), (''toString'', 3)]"

definition example_tiles_by_state :: tiles_by_state where
  "example_tiles_by_state =
     [(''X'', Some [\<lparr> tile_id = ''X'', position = (Fin 0, Fin 0) \<rparr>,
                    \<lparr> tile_id = ''X'', position = (Fin 1, Fin 0) \<rparr>]),
      (''10'', Some [\<lparr> tile_id = ''10'', position = (Fin 0, Fin 1) \<rparr>]),
      (''A'', None)]"

definition example_center :: "jsnum \<times> jsnum \<Rightarrow> jsnum \<times> jsnum" where
  "example_center p = p"

definition example_points :: "jsnum \<times> jsnum \<Rightarrow> bool \<Rightarrow> (jsnum \<times> jsnum) list" where
  "example_points center closed = [center, (snd center, fst center)]"

definition example_names :: "unit \<Rightarrow> string \<Rightarrow> string option" where
  "example_names geography = map_of [(''X'', ''Ex''), (''10'', ''Ten''), (''A'', ''Ay'')]"

definition example_features :: "(jsnum, string, nat) feature list" where
  "example_features =
     [\<lparr> feature_type = ''Feature'',
        feature_geometry = Some (Polygon [[(Fin 0, Fin (- 1)), (Fin (- 1), Fin 0), (Fin 0, Fin (- 1))]]),
        region_id = ''10'',
        properties = \<lparr> name = ''Ten'', tilegramValue = 7 \<rparr> \<rparr>,
      \<lparr> feature_type = ''Feature'',
        feature_geometry = Some (MultiPolygon
          [[[(Fin 0, Fin 0), (Fin 0, Fin 0), (Fin 0, Fin 0)]],
           [[(Fin 1, Fin 0), (Fin 0, Fin 1), (Fin 1, Fin 0)]]]),
        region_id = ''X'',
        properties = \<lparr> name = ''Ex'', tilegramValue = 5 \<rparr> \<rparr>,
      \<lparr> feature_type = ''Feature'',
        feature_geometry = None,
        region_id = ''A'',
        properties = \<lparr> name = ''Ay'', tilegramValue = 1 \<rparr> \<rparr>]"

section \<open>Properties of the delta encoder\<close>

lemma encode_paths_Inr:
  "encode_paths h ps (arcs, idxs) = Inr (arcs', idxs') \<Longrightarrow>
   \<exists>as. list_all2 (\<lambda>p a. encode_path h p = Inr a) ps as \<and> arcs' = arcs @ as \<and>
        idxs' = idxs @ [length arcs ..< length arcs + length ps]"
proof (induction ps arbitrary: arcs idxs)
  case Nil
  then show ?case by simp
next
  case (Cons p ps)
  from Cons.prems obtain arc where arc: "encode_path h p = Inr arc"
    and rest: "encode_paths h ps (arcs @ [arc], idxs @ [length arcs]) = Inr (arcs', idxs')"
    by (auto split: sum.splits)
  from Cons.IH [OF rest] obtain as where as:
    "list_all2 (\<lambda>p a. encode_path h p = Inr a) ps as" "arcs' = (arcs @ [arc]) @ as"
    "idxs' = (idxs @ [length arcs]) @ [length (arcs @ [arc]) ..< length (arcs @ [arc]) + length ps]"
    by blast
  have "list_all2 (\<lambda>p a. encode_path h p = Inr a) (p # ps) (arc # as)"
    using arc as(1) by simp
  moreover have "arcs' = arcs @ (arc # as)" using as(2) by simp
  moreover have "[length arcs ..< length arcs + length (p # ps)] =
      length arcs # [Suc (length arcs) ..< Suc (length arcs) + length ps]"
    using upt_conv_Cons [of "length arcs" "length arcs + Suc (length ps)"] by simp
  then have "idxs' = idxs @ [length arcs ..< length arcs + length (p # ps)]"
    using as(3) by simp
  ultimately show ?case by blast
qed

lemma encode_feature_Inr:
  assumes "encode_feature f arcs = Inr (g, arcs')"
  shows "\<exists>geo as. geometry f = Some geo \<and>
           list_all2 (\<lambda>p a. encode_path (1 < length (coordinates geo)) p = Inr a) (coordinates geo) as \<and>
           arcs' = arcs @ as \<and>
           g = \<lparr> geom_type = (if 1 < length (coordinates geo) then ''MultiPolygon'' else ''Polygon''),
                 geom_id = feature_id f,
                 geom_arcs =
                   (if 1 < length (coordinates geo)
                    then Arr (map (\<lambda>index. Arr [Arr [index_val index]])
                                [length arcs ..< length arcs + length (coordinates geo)])
                    else Arr [Arr (map index_val [length arcs ..< length arcs + length (coordinates geo)])]) \<rparr>"
proof -
  from assms obtain geo where geo: "geometry f = Some geo"
    by (auto simp: encode_feature_def split: option.splits)
  let ?h = "1 < length (coordinates geo)"
  from assms geo obtain idxs where ps: "encode_paths ?h (coordinates geo) (arcs, []) = Inr (arcs', idxs)"
    and g: "g = \<lparr> geom_type = (if ?h then ''MultiPolygon'' else ''Polygon''),
                 geom_id = feature_id f,
                 geom_arcs = (if ?h then Arr (map (\<lambda>index. Arr [Arr [index_val index]]) idxs)
                    else Arr [Arr (map index_val idxs)]) \<rparr>"
    by (auto simp: encode_feature_def Let_def split: sum.splits)
  from encode_paths_Inr [OF ps] obtain as where
    "list_all2 (\<lambda>p a. encode_path ?h p = Inr a) (coordinates geo) as" "arcs' = arcs @ as"
    "idxs = [length arcs ..< length arcs + length (coordinates geo)]"
    by auto
  with geo g show ?thesis by blast
qed

lemma encode_feature_length:
  "encode_feature f arcs = Inr (g, arcs') \<Longrightarrow> length arcs' = length arcs + num_paths f \<and> take (length arcs) arcs' = arcs"
  by (drule encode_feature_Inr) (auto simp: num_paths_def dest: list_all2_lengthD)

lemma arc_offset_0: "arc_offset fs 0 = 0"
  by (simp add: arc_offset_def)

lemma arc_offset_Suc_Cons: "arc_offset (f # fs) (Suc k) = num_paths f + arc_offset fs k"
  by (simp add: arc_offset_def)

lemma encode_features_Inr:
  "encode_features fs arcs = Inr (gs, arcs') \<Longrightarrow>
   length gs = length fs \<and> length arcs' = length arcs + arc_offset fs (length fs) \<and>
   take (length arcs) arcs' = arcs \<and>
   (\<forall>k<length fs. encode_feature (fs ! k) (take (length arcs + arc_offset fs k) arcs') =
       Inr (gs ! k, take (length arcs + arc_offset fs (Suc k)) arcs'))"
proof (induction fs arbitrary: arcs gs)
  case Nil
  then show ?case by (simp add: arc_offset_def)
next
  case (Cons f fs)
  from Cons.prems obtain g arcs1 gs1 where f: "encode_feature f arcs = Inr (g, arcs1)"
    and rest: "encode_features fs arcs1 = Inr (gs1, arcs')" and gs: "gs = g # gs1"
    by (auto split: sum.splits)
  note ih = Cons.IH [OF rest]
  note fl = encode_feature_length [OF f]
  have len: "length arcs1 = length arcs + num_paths f" using fl by simp
  have pre1: "take (length arcs1) arcs' = arcs1" using ih by simp
  have pre0: "take (length arcs) arcs' = arcs"
  proof -
    have "arcs' = take (length arcs1) arcs' @ drop (length arcs1) arcs'" by simp
    then have "arcs' = arcs1 @ drop (length arcs1) arcs'" using pre1 by simp
    moreover have "arcs1 = take (length arcs) arcs1 @ drop (length arcs) arcs1" by simp
    then have "arcs1 = arcs @ drop (length arcs) arcs1" using fl by simp
    ultimately have "arcs' = arcs @ (drop (length arcs) arcs1 @ drop (length arcs1) arcs')"
      by (metis append_assoc)
    then show ?thesis by (metis append_eq_conv_conj)
  qed
  have step: "encode_feature ((f # fs) ! k) (take (length arcs + arc_offset (f # fs) k) arcs') =
       Inr (gs ! k, take (length arcs + arc_offset (f # fs) (Suc k)) arcs')" if "k < length (f # fs)" for k
  proof (cases k)
    case 0
    then show ?thesis using f gs pre0 pre1 len
      by (simp add: arc_offset_0 arc_offset_Suc_Cons)
  next
    case (Suc k')
    then have "k' < length fs" using that by simp
    with ih have "encode_feature (fs ! k') (take (length arcs1 + arc_offset fs k') arcs') =
       Inr (gs1 ! k', take (length arcs1 + arc_offset fs (Suc k')) arcs')" by blast
    then show ?thesis using Suc gs len
      by (simp add: arc_offset_Suc_Cons add.assoc)
  qed
  have "length gs = length (f # fs)" using ih gs by simp
  moreover have "length arcs' = length arcs + arc_offset (f # fs) (length (f # fs))"
    using ih len by (simp add: arc_offset_Suc_Cons)
  ultimately show ?case using pre0 step by blast
qed

lemma fromGeoJSON_Inr:
  assumes "fromGeoJSON geoJSON objectId = Inr topo"
  shows "\<exists>gs. encode_features (features geoJSON) [] = Inr (gs, topology_arcs topo) \<and>
           objects topo = [(object_name objectId,
              \<lparr> collection_type = ''GeometryCollection'', geometries = gs \<rparr>)] \<and>
           topology_type topo = ''Topology'' \<and>
           topology_transform topo = \<lparr> scale = [Fin 1, Fin 1], translate = [Fin 0, Fin 0] \<rparr>"
  using assms by (auto simp: fromGeoJSON_def split: sum.splits)

lemma arc_offset_mono: "k \<le> length fs \<Longrightarrow> arc_offset fs k \<le> arc_offset fs (length fs)"
proof -
  assume "k \<le> length fs"
  have "fs = take k fs @ drop k fs" by simp
  then have "map num_paths fs = map num_paths (take k fs) @ map num_paths (drop k fs)"
    by (metis map_append)
  then have "sum_list (map num_paths fs) = sum_list (map num_paths (take k fs)) + sum_list (map num_paths (drop k fs))"
    by (metis sum_list_append)
  then show ?thesis by (simp add: arc_offset_def)
qed

lemma arc_offset_Suc:
  "k < length fs \<Longrightarrow> arc_offset fs (Suc k) = arc_offset fs k + num_paths (fs ! k)"
  by (simp add: arc_offset_def take_Suc_conv_app_nth)

lemma encode_features_feature:
  assumes "encode_features fs [] = Inr (gs, arcs')" and "k < length fs"
  shows "\<exists>geo as. geometry (fs ! k) = Some geo \<and> length as = length (coordinates geo) \<and>
      (\<forall>j<length (coordinates geo).
          encode_path (1 < length (coordinates geo)) (coordinates geo ! j) = Inr (as ! j) \<and>
          arcs' ! (arc_offset fs k + j) = as ! j) \<and>
      gs ! k = \<lparr> geom_type = (if 1 < length (coordinates geo) then ''MultiPolygon'' else ''Polygon''),
                 geom_id = feature_id (fs ! k),
                 geom_arcs =
                   (if 1 < length (coordinates geo)
                    then Arr (map (\<lambda>index. Arr [Arr [index_val index]])
                                [arc_offset fs k ..< arc_offset fs k + length (coordinates geo)])
                    else Arr [Arr (map index_val [arc_offset fs k ..< arc_offset fs k + length (coordinates geo)])]) \<rparr>"
proof -
  note all = encode_features_Inr [OF assms(1)]
  have total: "length arcs' = arc_offset fs (length fs)" using all by simp
  have step: "encode_feature (fs ! k) (take (arc_offset fs k) arcs') =
       Inr (gs ! k, take (arc_offset fs (Suc k)) arcs')"
    using all assms(2) by simp
  have le: "arc_offset fs k \<le> length arcs'"
    using total arc_offset_mono [of k fs] assms(2) by simp
  have le': "arc_offset fs (Suc k) \<le> length arcs'"
    using total arc_offset_mono [of "Suc k" fs] assms(2) by simp
  have len: "length (take (arc_offset fs k) arcs') = arc_offset fs k" using le by simp
  from encode_feature_Inr [OF step] obtain geo as where geo: "geometry (fs ! k) = Some geo"
    and as: "list_all2 (\<lambda>p a. encode_path (1 < length (coordinates geo)) p = Inr a) (coordinates geo) as"
    and app: "take (arc_offset fs (Suc k)) arcs' = take (arc_offset fs k) arcs' @ as"
    and g: "gs ! k = \<lparr> geom_type = (if 1 < length (coordinates geo) then ''MultiPolygon'' else ''Polygon''),
                 geom_id = feature_id (fs ! k),
                 geom_arcs =
                   (if 1 < length (coordinates geo)
                    then Arr (map (\<lambda>index. Arr [Arr [index_val index]])
                                [arc_offset fs k ..< arc_offset fs k + length (coordinates geo)])
                    else Arr [Arr (map index_val [arc_offset fs k ..< arc_offset fs k + length (coordinates geo)])]) \<rparr>"
    unfolding len by blast
  have las: "length as = length (coordinates geo)" using as by (simp add: list_all2_lengthD)
  have nth: "arcs' ! (arc_offset fs k + j) = as ! j" if "j < length (coordinates geo)" for j
  proof -
    have "arc_offset fs (Suc k) = arc_offset fs k + length (coordinates geo)"
      using arc_offset_Suc [OF assms(2)] geo by (simp add: num_paths_def)
    then have "arc_offset fs k + j < arc_offset fs (Suc k)" using that by simp
    then have "arcs' ! (arc_offset fs k + j) = take (arc_offset fs (Suc k)) arcs' ! (arc_offset fs k + j)"
      by simp
    also have "\<dots> = (take (arc_offset fs k) arcs' @ as) ! (arc_offset fs k + j)" using app by simp
    also have "\<dots> = as ! j" using len by (simp add: nth_append)
    finally show ?thesis .
  qed
  have "encode_path (1 < length (coordinates geo)) (coordinates geo ! j) = Inr (as ! j)"
    if "j < length (coordinates geo)" for j
    using as that by (auto simp: list_all2_conv_all_nth)
  with nth geo las g show ?thesis by blast
qed

lemma ulp_small: "a < 2 ^ 53 \<Longrightarrow> ulp a = 1"
  by (simp add: ulp.simps)

lemma ulp_2_53: "ulp (2 ^ 53) = 2"
proof -
  have "ulp (2 ^ 53) = 2 * ulp (2 ^ 53 div 2)" by (subst ulp.simps) simp
  also have "(2::nat) ^ 53 div 2 = 2 ^ 52" by simp
  also have "ulp (2 ^ 52) = 1" by (rule ulp_small) simp
  finally show ?thesis by simp
qed

lemma round_double_exact:
  assumes "\<bar>r\<bar> \<le> 2 ^ 53"
  shows "round_double r = Fin r"
proof -
  let ?a = "nat \<bar>r\<bar>"
  have a_le: "?a \<le> 2 ^ 53" using assms by (simp add: nat_le_iff)
  have big: "(2::nat) ^ 53 < 2 ^ 1024" by (rule power_strict_increasing) simp_all
  have sg: "sgn r * int ?a = r" by (simp add: sgn_if)
  show ?thesis
  proof (cases "?a < 2 ^ 53")
    case True
    then have u: "ulp ?a = 1" by (rule ulp_small)
    have "\<not> (2::nat) ^ 1024 \<le> ?a" using True big by linarith
    then show ?thesis using sg
      unfolding round_double_def Let_def u by simp
  next
    case False
    then have eq: "?a = 2 ^ 53" using a_le by simp
    have "\<not> (2::nat) ^ 1024 \<le> 2 ^ 53" using big by simp
    then show ?thesis using sg
      unfolding round_double_def Let_def eq ulp_2_53 by simp
  qed
qed

lemma ulp_above_2_53: "ulp (nat \<bar>- 2 - 9007199254740991\<bar>) = 2"
proof -
  have "nat \<bar>- 2 - 9007199254740991 :: int\<bar> = 9007199254740993" by simp
  moreover have "ulp 9007199254740993 = 2 * ulp 4503599627370496"
    by (subst ulp.simps) simp
  moreover have "ulp 4503599627370496 = 1" by (rule ulp_small) simp
  ultimately show ?thesis by simp
qed

lemma round_double_above_2_53: "round_double (- 2 - 9007199254740991) = Fin (- 9007199254740992)"
proof -
  have big: "\<not> (2::nat) ^ 1024 \<le> 9007199254740992"
  proof -
    have "(2::nat) ^ 53 < 2 ^ 1024" by (rule power_strict_increasing) simp_all
    then show ?thesis by simp
  qed
  show ?thesis
    unfolding round_double_def Let_def ulp_above_2_53 using big by simp
qed

lemma length_deltas: "length (deltas p ps) = length ps"
  by (induction ps arbitrary: p) simp_all

lemma deltas_nth:
  "i < length ps \<Longrightarrow> deltas p ps ! i = arc_point (p # ps) (Suc i)"
proof (induction ps arbitrary: p i)
  case Nil
  then show ?case by simp
next
  case (Cons q qs)
  show ?case
  proof (cases i)
    case 0
    then show ?thesis by (simp add: arc_point_def)
  next
    case (Suc i')
    then have "i' < length qs" using Cons.prems by simp
    from Cons.IH [OF this, of q] show ?thesis using Suc by (simp add: arc_point_def)
  qed
qed

lemma encode_arc_Nil: "encode_arc [] = []"
  by (simp add: encode_arc_def)

lemma encode_arc_nth: "i < length points \<Longrightarrow> encode_arc points ! i = arc_point points i"
  by (simp add: encode_arc_def)

lemma length_encode_arc: "length (encode_arc points) = length points"
  by (simp add: encode_arc_def)

lemma encode_arc_Cons: "encode_arc (p # ps) = p # deltas p ps"
proof (rule nth_equalityI)
  show "length (encode_arc (p # ps)) = length (p # deltas p ps)"
    by (simp add: length_encode_arc length_deltas)
next
  fix i assume "i < length (encode_arc (p # ps))"
  then have i: "i < length (p # ps)" by (simp add: length_encode_arc)
  show "encode_arc (p # ps) ! i = (p # deltas p ps) ! i"
  proof (cases i)
    case 0
    then show ?thesis using encode_arc_nth [OF i] by (simp add: arc_point_def)
  next
    case (Suc i')
    then have "i' < length ps" using i by simp
    then show ?thesis using Suc encode_arc_nth [OF i] by (simp add: deltas_nth)
  qed
qed

lemma diff_exact:
  assumes "\<bar>a\<bar> \<le> 2 ^ 52" "\<bar>b\<bar> \<le> 2 ^ 52"
  shows "js_sub (Fin a) (Fin b) = Fin (a - b)"
proof -
  have "\<bar>a - b\<bar> \<le> 2 ^ 53" using assms by simp
  then show ?thesis by (simp add: round_double_exact)
qed

lemma sum_exact:
  assumes "\<bar>a\<bar> \<le> 2 ^ 52"
  shows "js_add (Fin b) (Fin (a - b)) = Fin a"
proof -
  have "\<bar>b + (a - b)\<bar> \<le> 2 ^ 53" using assms by simp
  then have "round_double (b + (a - b)) = Fin (b + (a - b))" by (rule round_double_exact)
  then show ?thesis by simp
qed

lemma coord_point_val: "coord (point_val p) 0 = Fin (fst p)" "coord (point_val p) 1 = Fin (snd p)"
  by (simp_all add: coord_def point_val_def to_number_def)

lemma decode_deltas:
  "safe_point p \<Longrightarrow> list_all safe_point ps \<Longrightarrow>
   decode_from (point_val p) (deltas (point_val p) (map point_val ps)) = map point_val ps"
proof (induction ps arbitrary: p)
  case Nil
  then show ?case by simp
next
  case (Cons q qs)
  have q: "safe_point q" and qs: "list_all safe_point qs" using Cons.prems(2) by simp_all
  have d: "deltas (point_val p) (map point_val (q # qs)) =
      Arr [Num (Fin (fst q - fst p)), Num (Fin (snd q - snd p))] # deltas (point_val q) (map point_val qs)"
  proof -
    have "js_sub (Fin (fst q)) (Fin (fst p)) = Fin (fst q - fst p)"
      using q Cons.prems(1) unfolding safe_point_def by (intro diff_exact) simp_all
    moreover have "js_sub (Fin (snd q)) (Fin (snd p)) = Fin (snd q - snd p)"
      using q Cons.prems(1) unfolding safe_point_def by (intro diff_exact) simp_all
    ultimately show ?thesis
      by (simp add: point_val_def to_number_def del: js_sub.simps)
  qed
  have s: "Arr [Num (js_add (coord (point_val p) 0) (coord (Arr [Num (Fin (fst q - fst p)), Num (Fin (snd q - snd p))]) 0)),
        Num (js_add (coord (point_val p) 1) (coord (Arr [Num (Fin (fst q - fst p)), Num (Fin (snd q - snd p))]) 1))]
      = point_val q"
  proof -
    have "js_add (Fin (fst p)) (Fin (fst q - fst p)) = Fin (fst q)"
      using q unfolding safe_point_def by (intro sum_exact) simp
    moreover have "js_add (Fin (snd p)) (Fin (snd q - snd p)) = Fin (snd q)"
      using q unfolding safe_point_def by (intro sum_exact) simp
    ultimately show ?thesis
      by (simp add: coord_def to_number_def point_val_def del: js_add.simps)
  qed
  show ?case
    unfolding d using s Cons.IH [OF q qs] by (simp add: Let_def)
qed

lemma decode_encode:
  "list_all safe_point ps \<Longrightarrow> decode_arc (encode_arc (map point_val ps)) = map point_val ps"
proof (cases ps)
  case Nil
  then show ?thesis by (simp add: encode_arc_Nil)
next
  case (Cons p qs)
  assume "list_all safe_point ps"
  then show ?thesis using Cons by (simp add: encode_arc_Cons decode_deltas)
qed

lemma round_double_small: "\<bar>r\<bar> \<le> 1000 \<Longrightarrow> round_double r = Fin r"
  by (rule round_double_exact) simp

lemmas encoder_defs =
  fromGeoJSON_def encode_feature_def encode_path_def path_points_def encode_arc_def
  arc_point_def to_number_def index_val_def object_name_def point_val_def Let_def

lemma example_encoded: "fromGeoJSON example_geojson None = Inr example_topology"
  by (simp add: example_geojson_def example_topology_def example_ring_def example_part_def
      encoder_defs round_double_small)



text \<open>
  Claim C2, as amended.  Take any path of any feature whose encoded point sequence is a ring
  of integer points with every coordinate of magnitude at most \<open>2 ^ 52\<close>.  Decoding the
  arc produced for it, by adding each displacement to the point decoded just before,
  starting from the absolute first point, gives back the ring exactly.  Within that range
  no subtraction and no addition rounds.  The number of points plays no part.
\<close>

theorem round_trip_of_safe_integer_ring:
  assumes "fromGeoJSON geoJSON objectId = Inr topo"
    and "k < length (features geoJSON)"
    and "geometry (features geoJSON ! k) = Some geo"
    and "j < length (coordinates geo)"
    and "path_points (1 < length (coordinates geo)) (coordinates geo ! j) =
           Some (Arr (map point_val ring))"
    and "list_all safe_point ring"
  shows "decode_arc (topology_arcs topo ! (arc_offset (features geoJSON) k + j)) =
           map point_val ring"
proof -
  from fromGeoJSON_Inr [OF assms(1)] obtain gs where
    enc: "encode_features (features geoJSON) [] = Inr (gs, topology_arcs topo)" by blast
  from encode_features_feature [OF enc assms(2)] assms(3) obtain as where
    as: "\<forall>j<length (coordinates geo).
          encode_path (1 < length (coordinates geo)) (coordinates geo ! j) = Inr (as ! j) \<and>
          topology_arcs topo ! (arc_offset (features geoJSON) k + j) = as ! j"
    by auto
  have "encode_path (1 < length (coordinates geo)) (coordinates geo ! j) =
      Inr (topology_arcs topo ! (arc_offset (features geoJSON) k + j))"
    using as assms(4) by simp
  then have "topology_arcs topo ! (arc_offset (features geoJSON) k + j) =
      encode_arc (map point_val ring)"
    using assms(5) by (simp add: encode_path_def)
  then show ?thesis using assms(6) by (simp add: decode_encode)
qed

theorem round_trip_of_safe_integer_ring_witness:
  "decode_arc (topology_arcs example_topology ! 2) = example_part"
proof -
  let ?geo = "\<lparr> geometry_type = ''MultiPolygon'',
                 coordinates = [Arr [Arr example_ring], Arr [Arr example_part]] \<rparr>"
  have k: "1 < length (features example_geojson)" by (simp add: example_geojson_def)
  have geo: "geometry (features example_geojson ! 1) = Some ?geo"
    by (simp add: example_geojson_def)
  have j: "1 < length (coordinates ?geo)" by simp
  have off: "arc_offset (features example_geojson) 1 + 1 = 2"
    by (simp add: arc_offset_def num_paths_def example_geojson_def)
  have pp: "path_points (1 < length (coordinates ?geo)) (coordinates ?geo ! 1) =
      Some (Arr (map point_val [(10, 10), (15, 10), (10, 10)]))"
    by (simp add: path_points_def example_part_def)
  have safe: "list_all safe_point [(10, 10), (15, 10), (10, 10)]"
    by (simp add: safe_point_def)
  from round_trip_of_safe_integer_ring [OF example_encoded k geo j pp safe]
  show ?thesis unfolding off by (simp add: example_part_def)
qed

lemma round_double_safe: "\<bar>r\<bar> \<le> 9007199254740992 \<Longrightarrow> round_double r = Fin r"
  by (rule round_double_exact) simp

lemma round_double_tie: "round_double (- 9007199254740993) = Fin (- 9007199254740992)"
  using round_double_above_2_53 by simp

text \<open>
  Claim C2 as stated fails for integer coordinates in general.  The closed ring
  \<open>[[9007199254740991, 0], [-2, 0], [0, 5], [9007199254740991, 0]]\<close> has integer
  coordinates.  The difference \<open>-2 - 9007199254740991\<close> is not a double and rounds to
  \<open>-9007199254740992\<close>, so decoding the arc gives \<open>-1\<close> where the ring has \<open>-2\<close>, and
  the error stays in every later point.
\<close>

theorem round_trip_integer_counterexample:
  "fromGeoJSON example_wide_geojson None =
     Inr \<lparr> topology_type = ''Topology'',
           topology_transform = \<lparr> scale = [Fin 1, Fin 1], translate = [Fin 0, Fin 0] \<rparr>,
           objects = [(''states'',
             \<lparr> collection_type = ''GeometryCollection'',
               geometries = [\<lparr> geom_type = ''Polygon'', geom_id = 1,
                               geom_arcs = Arr [Arr [Num (Fin 0)]] \<rparr>] \<rparr>)],
           topology_arcs =
             [map point_val [(9007199254740991, 0), (- 9007199254740992, 0), (2, 5),
                             (9007199254740991, - 5)]] \<rparr> \<and>
   decode_arc (map point_val [(9007199254740991, 0), (- 9007199254740992, 0), (2, 5),
                              (9007199254740991, - 5)]) =
     map point_val [(9007199254740991, 0), (- 1, 0), (1, 5), (9007199254740992, 0)] \<and>
   map point_val [(9007199254740991, 0), (- 1, 0), (1, 5), (9007199254740992, 0)] \<noteq>
     example_wide_ring"
proof -
  have "fromGeoJSON example_wide_geojson None =
     Inr \<lparr> topology_type = ''Topology'',
           topology_transform = \<lparr> scale = [Fin 1, Fin 1], translate = [Fin 0, Fin 0] \<rparr>,
           objects = [(''states'',
             \<lparr> collection_type = ''GeometryCollection'',
               geometries = [\<lparr> geom_type = ''Polygon'', geom_id = 1,
                               geom_arcs = Arr [Arr [Num (Fin 0)]] \<rparr>] \<rparr>)],
           topology_arcs =
             [map point_val [(9007199254740991, 0), (- 9007199254740992, 0), (2, 5),
                             (9007199254740991, - 5)]] \<rparr>"
    by (simp add: example_wide_geojson_def example_wide_ring_def encoder_defs
        round_double_safe round_double_tie)
  moreover have "decode_arc (map point_val [(9007199254740991, 0), (- 9007199254740992, 0), (2, 5),
                              (9007199254740991, - 5)]) =
     map point_val [(9007199254740991, 0), (- 1, 0), (1, 5), (9007199254740992, 0)]"
    by (simp add: coord_def to_number_def point_val_def round_double_safe)
  moreover have "map point_val [(9007199254740991, 0), (- 1, 0), (1, 5), (9007199254740992, 0)] \<noteq>
     example_wide_ring"
    by (simp add: example_wide_ring_def point_val_def)
  ultimately show ?thesis by blast
qed

text \<open>
  Claim C3.  Whenever the encoder returns, the topology has as many arcs as the input
  features have coordinate paths in total, and they are in input order: the arc of path
  \<open>j\<close> of feature \<open>k\<close> sits at the index obtained by counting the paths of all earlier
  features and then \<open>j\<close> more.
\<close>

theorem arcs_count_and_order:
  assumes "fromGeoJSON geoJSON objectId = Inr topo"
  shows "length (topology_arcs topo) = sum_list (map num_paths (features geoJSON)) \<and>
    (\<forall>k geo j. k < length (features geoJSON) \<and> geometry (features geoJSON ! k) = Some geo \<and>
        j < length (coordinates geo) \<longrightarrow>
      arc_offset (features geoJSON) k + j < length (topology_arcs topo) \<and>
      encode_path (1 < length (coordinates geo)) (coordinates geo ! j) =
        Inr (topology_arcs topo ! (arc_offset (features geoJSON) k + j)))"
proof -
  from fromGeoJSON_Inr [OF assms] obtain gs where
    enc: "encode_features (features geoJSON) [] = Inr (gs, topology_arcs topo)" by blast
  have total: "length (topology_arcs topo) = arc_offset (features geoJSON) (length (features geoJSON))"
    using encode_features_Inr [OF enc] by simp
  then have len: "length (topology_arcs topo) = sum_list (map num_paths (features geoJSON))"
    by (simp add: arc_offset_def)
  have each: "arc_offset (features geoJSON) k + j < length (topology_arcs topo) \<and>
      encode_path (1 < length (coordinates geo)) (coordinates geo ! j) =
        Inr (topology_arcs topo ! (arc_offset (features geoJSON) k + j))"
    if k: "k < length (features geoJSON)" and geo: "geometry (features geoJSON ! k) = Some geo"
      and j: "j < length (coordinates geo)" for k geo j
  proof -
    from encode_features_feature [OF enc k] geo obtain as where
      as: "\<forall>j<length (coordinates geo).
          encode_path (1 < length (coordinates geo)) (coordinates geo ! j) = Inr (as ! j) \<and>
          topology_arcs topo ! (arc_offset (features geoJSON) k + j) = as ! j"
      by auto
    have "arc_offset (features geoJSON) (Suc k) = arc_offset (features geoJSON) k + length (coordinates geo)"
      using arc_offset_Suc [OF k] geo by (simp add: num_paths_def)
    moreover have "arc_offset (features geoJSON) (Suc k) \<le> length (topology_arcs topo)"
      using total arc_offset_mono [of "Suc k" "features geoJSON"] k by simp
    ultimately have "arc_offset (features geoJSON) k + j < length (topology_arcs topo)"
      using j by simp
    then show ?thesis using as j by simp
  qed
  show ?thesis using len each by blast
qed

theorem arcs_count_and_order_witness:
  "length (topology_arcs example_topology) = 3 \<and>
   encode_path True (Arr [Arr example_part]) = Inr (topology_arcs example_topology ! 2)"
proof -
  let ?geo = "\<lparr> geometry_type = ''MultiPolygon'',
                 coordinates = [Arr [Arr example_ring], Arr [Arr example_part]] \<rparr>"
  have k: "1 < length (features example_geojson)" by (simp add: example_geojson_def)
  have geo: "geometry (features example_geojson ! 1) = Some ?geo"
    by (simp add: example_geojson_def)
  have j: "1 < length (coordinates ?geo)" by simp
  have off: "arc_offset (features example_geojson) 1 + 1 = 2"
    by (simp add: arc_offset_def num_paths_def example_geojson_def)
  have total: "sum_list (map num_paths (features example_geojson)) = 3"
    by (simp add: num_paths_def example_geojson_def)
  note inst = arcs_count_and_order [OF example_encoded]
  from inst have "length (topology_arcs example_topology) = 3" using total by simp
  moreover from inst k geo j have
    "encode_path (1 < length (coordinates ?geo)) (coordinates ?geo ! 1) =
       Inr (topology_arcs example_topology ! (arc_offset (features example_geojson) 1 + 1))"
    by blast
  ultimately show ?thesis unfolding off by simp
qed

text \<open>
  Claim C4.  The geometry emitted for feature \<open>k\<close> carries the feature's id.  With more
  than one path it is a \<open>MultiPolygon\<close> whose \<open>arcs\<close> wraps every arc index of the
  feature as \<open>[[i]]\<close>; otherwise it is a \<open>Polygon\<close> whose \<open>arcs\<close> is one list of the
  feature's arc indices, which for exactly one path is \<open>[[i]]\<close>.  The indices are those
  of the feature's own arcs, in order.
\<close>

theorem emitted_geometry_shape:
  assumes "fromGeoJSON geoJSON objectId = Inr topo"
    and "k < length (features geoJSON)"
    and "geometry (features geoJSON ! k) = Some geo"
  shows "\<exists>gs. objects topo =
        [(object_name objectId, \<lparr> collection_type = ''GeometryCollection'', geometries = gs \<rparr>)] \<and>
      length gs = length (features geoJSON) \<and>
      gs ! k =
        (if 1 < length (coordinates geo)
         then \<lparr> geom_type = ''MultiPolygon'', geom_id = feature_id (features geoJSON ! k),
                geom_arcs = Arr (map (\<lambda>index. Arr [Arr [index_val index]])
                  [arc_offset (features geoJSON) k ..<
                   arc_offset (features geoJSON) k + length (coordinates geo)]) \<rparr>
         else \<lparr> geom_type = ''Polygon'', geom_id = feature_id (features geoJSON ! k),
                geom_arcs = Arr [Arr (map index_val
                  [arc_offset (features geoJSON) k ..<
                   arc_offset (features geoJSON) k + length (coordinates geo)])] \<rparr>)"
proof -
  from fromGeoJSON_Inr [OF assms(1)] obtain gs where
    enc: "encode_features (features geoJSON) [] = Inr (gs, topology_arcs topo)"
    and obj: "objects topo =
        [(object_name objectId, \<lparr> collection_type = ''GeometryCollection'', geometries = gs \<rparr>)]"
    by blast
  have len: "length gs = length (features geoJSON)" using encode_features_Inr [OF enc] by simp
  from encode_features_feature [OF enc assms(2)] assms(3) have
    "gs ! k = \<lparr> geom_type = (if 1 < length (coordinates geo) then ''MultiPolygon'' else ''Polygon''),
                 geom_id = feature_id (features geoJSON ! k),
                 geom_arcs =
                   (if 1 < length (coordinates geo)
                    then Arr (map (\<lambda>index. Arr [Arr [index_val index]])
                                [arc_offset (features geoJSON) k ..< arc_offset (features geoJSON) k + length (coordinates geo)])
                    else Arr [Arr (map index_val [arc_offset (features geoJSON) k ..< arc_offset (features geoJSON) k + length (coordinates geo)])]) \<rparr>"
    by auto
  then have "gs ! k =
        (if 1 < length (coordinates geo)
         then \<lparr> geom_type = ''MultiPolygon'', geom_id = feature_id (features geoJSON ! k),
                geom_arcs = Arr (map (\<lambda>index. Arr [Arr [index_val index]])
                  [arc_offset (features geoJSON) k ..<
                   arc_offset (features geoJSON) k + length (coordinates geo)]) \<rparr>
         else \<lparr> geom_type = ''Polygon'', geom_id = feature_id (features geoJSON ! k),
                geom_arcs = Arr [Arr (map index_val
                  [arc_offset (features geoJSON) k ..<
                   arc_offset (features geoJSON) k + length (coordinates geo)])] \<rparr>)"
    by simp
  with obj len show ?thesis by blast
qed

theorem emitted_geometry_shape_witness:
  "snd (hd (objects example_topology)) =
     \<lparr> collection_type = ''GeometryCollection'',
       geometries =
         [\<lparr> geom_type = ''Polygon'', geom_id = 7, geom_arcs = Arr [Arr [index_val 0]] \<rparr>,
          \<lparr> geom_type = ''MultiPolygon'', geom_id = 9,
            geom_arcs = Arr [Arr [Arr [index_val 1]], Arr [Arr [index_val 2]]] \<rparr>] \<rparr>"
proof -
  let ?geo0 = "\<lparr> geometry_type = ''Polygon'', coordinates = [Arr example_ring] \<rparr>"
  let ?geo1 = "\<lparr> geometry_type = ''MultiPolygon'',
                 coordinates = [Arr [Arr example_ring], Arr [Arr example_part]] \<rparr>"
  have k0: "0 < length (features example_geojson)" and k1: "1 < length (features example_geojson)"
    by (simp_all add: example_geojson_def)
  have geo0: "geometry (features example_geojson ! 0) = Some ?geo0"
    and geo1: "geometry (features example_geojson ! 1) = Some ?geo1"
    by (simp_all add: example_geojson_def)
  have off0: "arc_offset (features example_geojson) 0 = 0"
    and off1: "arc_offset (features example_geojson) 1 = 1"
    by (simp_all add: arc_offset_def num_paths_def example_geojson_def)
  have id0: "feature_id (features example_geojson ! 0) = 7"
    and id1: "feature_id (features example_geojson ! 1) = 9"
    by (simp_all add: example_geojson_def)
  from emitted_geometry_shape [OF example_encoded k0 geo0]
  obtain gs where obj: "objects example_topology =
        [(object_name None, \<lparr> collection_type = ''GeometryCollection'', geometries = gs \<rparr>)]"
    and len: "length gs = length (features example_geojson)"
    and g0: "gs ! 0 = \<lparr> geom_type = ''Polygon'', geom_id = 7, geom_arcs = Arr [Arr [index_val 0]] \<rparr>"
    unfolding off0 id0 by auto
  from emitted_geometry_shape [OF example_encoded k1 geo1] obj
  have g1: "gs ! 1 = \<lparr> geom_type = ''MultiPolygon'', geom_id = 9,
            geom_arcs = Arr [Arr [Arr [index_val 1]], Arr [Arr [index_val 2]]] \<rparr>"
    unfolding off1 id1 by (auto simp: upt_conv_Cons index_val_def)
  have "length gs = 2" using len by (simp add: example_geojson_def)
  then have "gs = [gs ! 0, gs ! 1]"
    by (cases gs; cases "tl gs") auto
  then show ?thesis using obj g0 g1 by (simp add: index_val_def)
qed

lemma encode_arc_short: "length points < 2 \<Longrightarrow> encode_arc points = points"
proof (cases points)
  case Nil
  then show ?thesis by (simp add: encode_arc_Nil)
next
  case (Cons p ps)
  assume "length points < 2"
  then have "ps = []" using Cons by simp
  then show ?thesis using Cons by (simp add: encode_arc_Cons)
qed

lemma encode_feature_no_paths:
  "geometry feature = Some geo \<Longrightarrow> coordinates geo = [] \<Longrightarrow>
   encode_feature feature arcs =
     Inr (\<lparr> geom_type = ''Polygon'', geom_id = feature_id feature, geom_arcs = Arr [Arr []] \<rparr>, arcs)"
  by (simp add: encode_feature_def)

lemma encode_feature_one_path:
  "geometry feature = Some geo \<Longrightarrow> coordinates geo = [Arr points] \<Longrightarrow>
   encode_feature feature arcs =
     Inr (\<lparr> geom_type = ''Polygon'', geom_id = feature_id feature,
            geom_arcs = Arr [Arr [index_val (length arcs)]] \<rparr>, arcs @ [encode_arc points])"
  by (simp add: encode_feature_def encode_path_def path_points_def)

text \<open>
  Claim C8 as stated fails: the encoder has no validation.  A feature without paths, a
  path with a single point and an empty path are all encoded, and the call returns a
  topology.
\<close>

theorem degenerate_geometry_counterexample:
  "fromGeoJSON example_degenerate_geojson None =
     Inr \<lparr> topology_type = ''Topology'',
           topology_transform = \<lparr> scale = [Fin 1, Fin 1], translate = [Fin 0, Fin 0] \<rparr>,
           objects = [(''states'',
             \<lparr> collection_type = ''GeometryCollection'',
               geometries =
                 [\<lparr> geom_type = ''Polygon'', geom_id = 1, geom_arcs = Arr [Arr []] \<rparr>,
                  \<lparr> geom_type = ''Polygon'', geom_id = 2, geom_arcs = Arr [Arr [Num (Fin 0)]] \<rparr>,
                  \<lparr> geom_type = ''Polygon'', geom_id = 3, geom_arcs = Arr [Arr [Num (Fin 1)]] \<rparr>] \<rparr>)],
           topology_arcs = [[point_val (1, 2)], []] \<rparr>"
  by (simp add: example_degenerate_geojson_def encoder_defs)

text \<open>
  Claim C8, as amended.  A feature with no coordinate path is encoded as a \<open>Polygon\<close>
  with \<open>arcs = [[]]\<close> and adds no arc.  A path whose point sequence has fewer than two
  points is encoded without an error as an arc that is a copy of that sequence: empty, or
  the single point.
\<close>

theorem degenerate_geometry_is_encoded:
  "(geometry feature = Some geo \<longrightarrow> coordinates geo = [] \<longrightarrow>
      encode_feature feature arcs =
        Inr (\<lparr> geom_type = ''Polygon'', geom_id = feature_id feature,
               geom_arcs = Arr [Arr []] \<rparr>, arcs)) \<and>
   (path_points hasMultiplePaths path = Some (Arr points) \<longrightarrow> length points < 2 \<longrightarrow>
      encode_path hasMultiplePaths path = Inr points) \<and>
   (geometry feature = Some geo \<longrightarrow> coordinates geo = [Arr points] \<longrightarrow> length points < 2 \<longrightarrow>
      encode_feature feature arcs =
        Inr (\<lparr> geom_type = ''Polygon'', geom_id = feature_id feature,
               geom_arcs = Arr [Arr [index_val (length arcs)]] \<rparr>, arcs @ [points]))"
  using encode_feature_no_paths [of feature geo arcs]
    encode_feature_one_path [of feature geo points arcs] encode_arc_short [of points]
  by (simp add: encode_path_def)

theorem degenerate_geometry_is_encoded_witness:
  "encode_feature
      \<lparr> feature_id = (1::nat),
        geometry = Some \<lparr> geometry_type = ''Polygon'', coordinates = [] \<rparr> \<rparr> [] =
     Inr (\<lparr> geom_type = ''Polygon'', geom_id = 1, geom_arcs = Arr [Arr []] \<rparr>, []) \<and>
   encode_path True (Arr [Arr [point_val (1, 2)]]) = Inr [point_val (1, 2)] \<and>
   encode_feature
      \<lparr> feature_id = (1::nat),
        geometry = Some \<lparr> geometry_type = ''Polygon'', coordinates = [Arr [point_val (1, 2)]] \<rparr> \<rparr> [] =
     Inr (\<lparr> geom_type = ''Polygon'', geom_id = 1, geom_arcs = Arr [Arr [index_val 0]] \<rparr>,
          [[point_val (1, 2)]])"
proof -
  have pp: "path_points True (Arr [Arr [point_val (1, 2)]]) = Some (Arr [point_val (1, 2)])"
    by (simp add: path_points_def)
  have a: "encode_feature
      \<lparr> feature_id = (1::nat),
        geometry = Some \<lparr> geometry_type = ''Polygon'', coordinates = [] \<rparr> \<rparr> [] =
     Inr (\<lparr> geom_type = ''Polygon'', geom_id = 1, geom_arcs = Arr [Arr []] \<rparr>, [])"
    using degenerate_geometry_is_encoded
      [of "\<lparr> feature_id = (1::nat),
            geometry = Some \<lparr> geometry_type = ''Polygon'', coordinates = [] \<rparr> \<rparr>"
          "\<lparr> geometry_type = ''Polygon'', coordinates = [] \<rparr>" "[]"]
    by simp
  have b: "encode_path True (Arr [Arr [point_val (1, 2)]]) = Inr [point_val (1, 2)]"
    using degenerate_geometry_is_encoded
      [of _ _ _ True "Arr [Arr [point_val (1, 2)]]" "[point_val (1, 2)]"] pp
    by simp blast
  have c: "encode_feature
      \<lparr> feature_id = (1::nat),
        geometry = Some \<lparr> geometry_type = ''Polygon'', coordinates = [Arr [point_val (1, 2)]] \<rparr> \<rparr> [] =
     Inr (\<lparr> geom_type = ''Polygon'', geom_id = 1, geom_arcs = Arr [Arr [index_val 0]] \<rparr>,
          [[point_val (1, 2)]])"
    using degenerate_geometry_is_encoded
      [of "\<lparr> feature_id = (1::nat),
            geometry = Some \<lparr> geometry_type = ''Polygon'', coordinates = [Arr [point_val (1, 2)]] \<rparr> \<rparr>"
          "\<lparr> geometry_type = ''Polygon'', coordinates = [Arr [point_val (1, 2)]] \<rparr>" "[]"
          False "Arr []" "[point_val (1, 2)]"]
    by simp
  from a b c show ?thesis by blast
qed




section \<open>Properties of the primary exporter\<close>

lemma map_of_set_property: "map_of (set_property k v obj) = (map_of obj)(k \<mapsto> v)"
  by (induction obj) (auto simp: fun_eq_iff)

lemma keys_set_property: "map fst (set_property k v obj) = add_key (map fst obj) k"
  by (induction obj) (auto simp: add_key_def)

lemma set_first_appearances: "set (first_appearances ks) = set ks"
  by (induction ks rule: first_appearances.induct) auto

lemma distinct_first_appearances: "distinct (first_appearances ks)"
  by (induction ks rule: first_appearances.induct) (auto simp: set_first_appearances)

lemma foldl_add_key:
  "foldl add_key seen ks = seen @ first_appearances (filter (\<lambda>k. k \<notin> set seen) ks)"
proof (induction ks arbitrary: seen)
  case Nil
  then show ?case by simp
next
  case (Cons k ks)
  show ?case
  proof (cases "k \<in> set seen")
    case True
    then show ?thesis using Cons.IH [of seen] by (simp add: add_key_def)
  next
    case False
    have "filter (\<lambda>k'. k' \<notin> set (seen @ [k])) ks =
        filter (\<lambda>k'. k' \<noteq> k) (filter (\<lambda>k'. k' \<notin> set seen) ks)"
      by (induction ks) auto
    then show ?thesis using False Cons.IH [of "seen @ [k]"] by (simp add: add_key_def)
  qed
qed

lemma add_tile_Inr:
  assumes "add_tile obj t = Inr obj'"
  shows "obj' = set_property (tile_id t) (Some (prior_tiles obj (tile_id t) @ [t])) obj"
  using assms
  by (auto simp: add_tile_def get_property_def prior_tiles_def
      split: option.splits if_splits)

lemma add_tile_Inl:
  "(add_tile obj t = Inl e) = (tile_id t \<in> set object_prototype_keys \<and> tile_id t \<notin> set (map fst obj))"
proof (cases "map_of obj (tile_id t)")
  case None
  then have "tile_id t \<notin> set (map fst obj)" by (simp add: map_of_eq_None_iff)
  then show ?thesis using None by (cases e) (simp add: add_tile_def get_property_def)
next
  case (Some v)
  then have "tile_id t \<in> set (map fst obj)"
    using map_of_eq_None_iff [of obj "tile_id t"] by simp
  then show ?thesis using Some by (cases v) (simp_all add: add_tile_def get_property_def)
qed

lemma add_tiles_keys:
  "add_tiles obj ts = Inr obj' \<Longrightarrow> map fst obj' = foldl add_key (map fst obj) (map tile_id ts)"
proof (induction ts arbitrary: obj)
  case Nil
  then show ?case by simp
next
  case (Cons t ts)
  from Cons.prems obtain obj1 where t: "add_tile obj t = Inr obj1"
    and rest: "add_tiles obj1 ts = Inr obj'"
    by (auto split: sum.splits)
  have "map fst obj1 = add_key (map fst obj) (tile_id t)"
    using add_tile_Inr [OF t] by (simp add: keys_set_property)
  then show ?case using Cons.IH [OF rest] by simp
qed

lemma add_tiles_values:
  "add_tiles obj ts = Inr obj' \<Longrightarrow>
   map_of obj' k =
     (if tiles_of k ts = [] then map_of obj k
      else Some (Some (prior_tiles obj k @ tiles_of k ts)))"
proof (induction ts arbitrary: obj)
  case Nil
  then show ?case by (simp add: tiles_of_def)
next
  case (Cons t ts)
  from Cons.prems obtain obj1 where t: "add_tile obj t = Inr obj1"
    and rest: "add_tiles obj1 ts = Inr obj'"
    by (auto split: sum.splits)
  have obj1: "map_of obj1 = (map_of obj)(tile_id t \<mapsto> Some (prior_tiles obj (tile_id t) @ [t]))"
    using add_tile_Inr [OF t] by (simp add: map_of_set_property)
  note ih = Cons.IH [OF rest]
  show ?case
  proof (cases "tile_id t = k")
    case True
    have p1: "prior_tiles obj1 k = prior_tiles obj k @ [t]"
      using obj1 True by (simp add: prior_tiles_def)
    have m1: "map_of obj1 k = Some (Some (prior_tiles obj k @ [t]))"
      using obj1 True by simp
    show ?thesis using ih True p1 m1 by (simp add: tiles_of_def)
  next
    case False
    have "prior_tiles obj1 k = prior_tiles obj k" "map_of obj1 k = map_of obj k"
      using obj1 False by (simp_all add: prior_tiles_def)
    then show ?thesis using ih False by (simp add: tiles_of_def)
  qed
qed

lemma add_tiles_Inl:
  "(add_tiles obj ts = Inl e) =
   (\<exists>t\<in>set ts. tile_id t \<in> set object_prototype_keys \<and> tile_id t \<notin> set (map fst obj))"
proof (induction ts arbitrary: obj)
  case Nil
  then show ?case by simp
next
  case (Cons t ts)
  show ?case
  proof (cases "add_tile obj t")
    case (Inl e')
    then show ?thesis using add_tile_Inl [of obj t e'] by (cases e; cases e') auto
  next
    case (Inr obj1)
    have no: "\<not> (tile_id t \<in> set object_prototype_keys \<and> tile_id t \<notin> set (map fst obj))"
      using add_tile_Inl [of obj t TypeError] Inr by auto
    have keys: "set (map fst obj1) = insert (tile_id t) (set (map fst obj))"
      using add_tile_Inr [OF Inr] by (auto simp: keys_set_property add_key_def)
    have "(add_tiles obj (t # ts) = Inl e) = (add_tiles obj1 ts = Inl e)" using Inr by simp
    also have "\<dots> = (\<exists>u\<in>set ts. tile_id u \<in> set object_prototype_keys \<and> tile_id u \<notin> set (map fst obj1))"
      by (rule Cons.IH)
    also have "\<dots> = (\<exists>u\<in>set (t # ts). tile_id u \<in> set object_prototype_keys \<and> tile_id u \<notin> set (map fst obj))"
      using no keys by simp metis
    finally show ?thesis .
  qed
qed

lemma add_dataset_entry_keys:
  "map fst (add_dataset_entry obj d) =
   (if fst d \<in> set object_prototype_keys then map fst obj else add_key (map fst obj) (fst d))"
proof (cases "map_of obj (fst d)")
  case None
  then show ?thesis by (simp add: add_dataset_entry_def get_property_def keys_set_property)
next
  case (Some v)
  then have own: "fst d \<in> set (map fst obj)"
    using map_of_eq_None_iff [of obj "fst d"] by simp
  then have same: "add_key (map fst obj) (fst d) = map fst obj" by (simp add: add_key_def)
  show ?thesis using Some same
    by (cases v) (simp_all add: add_dataset_entry_def get_property_def keys_set_property)
qed

lemma add_dataset_entry_values:
  "map_of (add_dataset_entry obj d) k =
   (if k = fst d \<and> map_of obj k = None \<and> k \<notin> set object_prototype_keys then Some None
    else map_of obj k)"
proof (cases "map_of obj (fst d)")
  case None
  then show ?thesis
    by (auto simp: add_dataset_entry_def get_property_def map_of_set_property)
next
  case (Some v)
  then show ?thesis
    by (cases v) (auto simp: add_dataset_entry_def get_property_def map_of_set_property)
qed

lemma dataset_keys:
  "map fst (foldl add_dataset_entry obj ds) =
   foldl add_key (map fst obj) (filter (\<lambda>k. k \<notin> set object_prototype_keys) (map fst ds))"
  by (induction ds arbitrary: obj) (simp_all add: add_dataset_entry_keys)

lemma dataset_values:
  "map_of (foldl add_dataset_entry obj ds) k =
   (case map_of obj k of
      Some v \<Rightarrow> Some v
    | None \<Rightarrow> if k \<in> fst ` set ds \<and> k \<notin> set object_prototype_keys then Some None else None)"
proof (induction ds arbitrary: obj)
  case Nil
  then show ?case by (simp split: option.splits)
next
  case (Cons d ds)
  show ?case
    using Cons.IH [of "add_dataset_entry obj d"]
    by (auto simp: add_dataset_entry_values split: option.splits)
qed

lemma aggregate_Inr:
  assumes "aggregate tiles dataset = Inr obj"
  shows "\<exists>obj0. add_tiles [] tiles = Inr obj0 \<and> obj = foldl add_dataset_entry obj0 dataset"
  using assms by (auto simp: aggregate_def split: sum.splits)

lemma aggregate_keys:
  assumes "aggregate tiles dataset = Inr obj"
  shows "map fst obj =
    first_appearances
      (map tile_id tiles @ filter (\<lambda>k. k \<notin> set object_prototype_keys) (map fst dataset))"
proof -
  from aggregate_Inr [OF assms] obtain obj0 where t: "add_tiles [] tiles = Inr obj0"
    and d: "obj = foldl add_dataset_entry obj0 dataset" by blast
  have "map fst obj0 = foldl add_key [] (map tile_id tiles)"
    using add_tiles_keys [OF t] by simp
  then have "map fst obj =
      foldl add_key [] (map tile_id tiles @ filter (\<lambda>k. k \<notin> set object_prototype_keys) (map fst dataset))"
    using d by (simp only: dataset_keys foldl_append)
  also have "\<dots> = first_appearances
      (map tile_id tiles @ filter (\<lambda>k. k \<notin> set object_prototype_keys) (map fst dataset))"
    using foldl_add_key [of "[]" "map tile_id tiles @
      filter (\<lambda>k. k \<notin> set object_prototype_keys) (map fst dataset)"]
    by simp
  finally show ?thesis .
qed

lemma aggregate_tiles_value:
  assumes "aggregate tiles dataset = Inr obj" and "tiles_of k tiles \<noteq> []"
  shows "map_of obj k = Some (Some (tiles_of k tiles))"
proof -
  from aggregate_Inr [OF assms(1)] obtain obj0 where t: "add_tiles [] tiles = Inr obj0"
    and d: "obj = foldl add_dataset_entry obj0 dataset" by blast
  have "map_of obj0 k = Some (Some (tiles_of k tiles))"
    using add_tiles_values [OF t, of k] assms(2) by (simp add: prior_tiles_def)
  then show ?thesis using d by (simp add: dataset_values)
qed

lemma aggregate_null_value:
  assumes "aggregate tiles dataset = Inr obj" and "tiles_of k tiles = []"
    and "k \<in> fst ` set dataset" and "k \<notin> set object_prototype_keys"
  shows "map_of obj k = Some None"
proof -
  from aggregate_Inr [OF assms(1)] obtain obj0 where t: "add_tiles [] tiles = Inr obj0"
    and d: "obj = foldl add_dataset_entry obj0 dataset" by blast
  have "map_of obj0 k = None"
    using add_tiles_values [OF t, of k] assms(2) by simp
  then show ?thesis using d assms(3,4) by (simp add: dataset_values)
qed

lemma tiles_of_empty: "(tiles_of k tiles = []) = (k \<notin> tile_id ` set tiles)"
  by (auto simp: tiles_of_def filter_empty_conv)

lemma aggregate_succeeds:
  assumes "\<forall>t \<in> set tiles. tile_id t \<notin> set object_prototype_keys"
  shows "\<exists>obj. aggregate tiles dataset = Inr obj"
proof (cases "add_tiles [] tiles")
  case (Inl e)
  then show ?thesis using add_tiles_Inl [of "[]" tiles e] assms by auto
next
  case (Inr obj0)
  then show ?thesis by (simp add: aggregate_def)
qed

lemma object_keys_no_index:
  assumes "list_all (\<lambda>k. \<not> is_array_index k) (map fst obj)"
  shows "object_keys obj = map fst obj"
proof -
  have "filter is_array_index (map fst obj) = []"
    using assms by (auto simp: list_all_iff filter_empty_conv)
  moreover have "filter (\<lambda>k. \<not> is_array_index k) (map fst obj) = map fst obj"
    using assms by (auto simp: list_all_iff filter_id_conv)
  ultimately show ?thesis by (simp add: object_keys_def)
qed

lemma map_result_Inr:
  "map_result f xs = Inr ys \<Longrightarrow> list_all2 (\<lambda>x y. f x = Inr y) xs ys"
  by (induction xs arbitrary: ys) (auto split: sum.splits)

lemma map_result_Inl:
  "x \<in> set xs \<Longrightarrow> f x = Inl e \<Longrightarrow> map_result f xs = Inl TypeError"
proof (induction xs)
  case Nil
  then show ?case by simp
next
  case (Cons y ys)
  have any: "r = Inl TypeError" if "r = Inl e'" for r :: "error + 'c" and e'
    using that by (cases e') simp
  show ?case
  proof (cases "f y")
    case (Inl e1)
    then show ?thesis by (cases e1) simp
  next
    case (Inr v)
    then have "x \<in> set ys" using Cons.prems by auto
    then have "map_result f ys = Inl TypeError" using Cons.IH Cons.prems(2) by simp
    then show ?thesis using Inr by simp
  qed
qed

lemma map_result_all:
  "(\<And>x. x \<in> set xs \<Longrightarrow> f x = Inr (g x)) \<Longrightarrow> map_result f xs = Inr (map g xs)"
  by (induction xs) simp_all

lemma tile_ring_Inr:
  assumes "tile_ring tcp gpa m t = Inr ring"
  shows "closed_ring ring"
  using assms
  by (auto simp: tile_ring_def Let_def closed_ring_def split: list.splits)

lemma state_geometry_Some:
  assumes "state_geometry tcp gpa m (Some ts) = Inr g"
  shows "\<exists>rings. list_all2 (\<lambda>t ring. tile_ring tcp gpa m t = Inr ring \<and> closed_ring ring) ts rings \<and>
           g = Some (if length ts \<noteq> 1 then MultiPolygon (map (\<lambda>ring. [ring]) rings) else Polygon rings)"
proof -
  from assms obtain rings where r: "map_result (tile_ring tcp gpa m) ts = Inr rings"
    and g: "g = Some (if length rings \<noteq> 1 then MultiPolygon (map (\<lambda>t. [t]) rings) else Polygon rings)"
    by (auto simp: state_geometry_def split: sum.splits)
  have l2: "list_all2 (\<lambda>t ring. tile_ring tcp gpa m t = Inr ring) ts rings"
    using map_result_Inr [OF r] .
  then have "list_all2 (\<lambda>t ring. tile_ring tcp gpa m t = Inr ring \<and> closed_ring ring) ts rings"
    by (rule list_all2_mono) (auto dest: tile_ring_Inr)
  moreover have "length rings = length ts" using l2 by (simp add: list_all2_lengthD)
  ultimately show ?thesis using g by auto
qed

lemma state_feature_Inr:
  assumes "state_feature tcp gpa geo dataset m obj k = Inr f"
  shows "\<exists>st. map_of obj k = Some st \<and>
      state_geometry tcp gpa m st = Inr (feature_geometry f) \<and>
      feature_type f = ''Feature'' \<and> region_id f = k \<and>
      geo k = Some (name (properties f)) \<and>
      find (\<lambda>d. fst d = k) dataset = Some (k, tilegramValue (properties f))"
proof -
  from assms obtain st where st: "map_of obj k = Some st"
    by (auto simp: state_feature_def get_property_def split: option.splits if_splits)
  then have own: "get_property obj k = Own st" by (simp add: get_property_def)
  from assms own obtain g n d where g: "state_geometry tcp gpa m st = Inr g"
    and n: "geo k = Some n" and d: "find (\<lambda>d. fst d = k) dataset = Some d"
    and f: "f = \<lparr> feature_type = ''Feature'', feature_geometry = g, region_id = k,
                 properties = \<lparr> name = n, tilegramValue = snd d \<rparr> \<rparr>"
    by (auto simp: state_feature_def split: sum.splits option.splits)
  have "fst d = k" using d by (auto simp: find_Some_iff)
  then have "d = (k, snd d)" by (cases d) simp
  then show ?thesis using st g n d f by simp
qed

lemma object_keys_set: "set (object_keys obj) = set (map fst obj)"
  by (auto simp: object_keys_def)

lemma object_keys_distinct: "distinct (map fst obj) \<Longrightarrow> distinct (object_keys obj)"
  by (auto simp: object_keys_def distinct_map_filter)

lemma object_keys_length: "length (object_keys obj) = length obj"
proof -
  have "length (filter is_array_index (map fst obj)) +
      length (filter (\<lambda>k. \<not> is_array_index k) (map fst obj)) = length (map fst obj)"
    by (rule sum_length_filter_compl)
  then show ?thesis by (simp add: object_keys_def)
qed

lemma aggregate_key_set:
  assumes "aggregate tiles dataset = Inr obj"
  shows "set (map fst obj) = tile_id ` set tiles \<union> (fst ` set dataset - set object_prototype_keys)"
  unfolding aggregate_keys [OF assms] set_first_appearances by auto

lemma aggregate_value:
  assumes "aggregate tiles dataset = Inr obj" and "k \<in> set (map fst obj)"
  shows "map_of obj k = Some (if tiles_of k tiles = [] then None else Some (tiles_of k tiles))"
proof (cases "tiles_of k tiles = []")
  case True
  then have "k \<notin> tile_id ` set tiles" by (simp add: tiles_of_empty)
  then have "k \<in> fst ` set dataset" "k \<notin> set object_prototype_keys"
    using assms(2) aggregate_key_set [OF assms(1)] by auto
  then show ?thesis using aggregate_null_value [OF assms(1) True] True by simp
next
  case False
  then show ?thesis using aggregate_tiles_value [OF assms(1) False] by simp
qed

lemma tile_features_Inr:
  assumes "tile_features tcp gpa geo tiles dataset = Inr fs"
  shows "\<exists>obj. aggregate tiles dataset = Inr obj \<and>
     list_all2 (\<lambda>k f. state_feature tcp gpa geo dataset (max_tile_y tiles) obj k = Inr f)
       (object_keys obj) fs"
  using assms
  by (auto simp: tile_features_def Let_def split: sum.splits dest: map_result_Inr)

lemma state_feature_lookup_fails:
  assumes "geo k = None \<or> k \<notin> fst ` set dataset"
  shows "state_feature tcp gpa geo dataset m obj k = Inl TypeError"
proof -
  have f: "find (\<lambda>d. fst d = k) dataset = None" if "k \<notin> fst ` set dataset"
    using that by (force simp: find_None_iff)
  have e: "e = TypeError" for e :: error by (cases e) simp
  show ?thesis
    using assms f
    by (auto simp: state_feature_def e split: property.splits sum.splits option.splits)
qed

lemma aggregate_no_tiles:
  "aggregate [] dataset = Inr (foldl add_dataset_entry [] dataset)"
  by (simp add: aggregate_def)

lemma find_in_dataset:
  assumes "k \<in> fst ` set dataset"
  shows "\<exists>v. find (\<lambda>d. fst d = k) dataset = Some (k, v) \<and> (k, v) \<in> set dataset"
proof (cases "find (\<lambda>d. fst d = k) dataset")
  case None
  then show ?thesis using assms by (auto simp: find_None_iff)
next
  case (Some d)
  then have "fst d = k" "d \<in> set dataset" by (auto simp: find_Some_iff)
  then show ?thesis using Some by (cases d) auto
qed

lemma example_aggregate: "aggregate example_tiles example_dataset = Inr example_tiles_by_state"
  by (simp add: aggregate_def add_tile_def add_dataset_entry_def get_property_def
      object_prototype_keys_def example_tiles_def example_dataset_def example_tiles_by_state_def)

lemma example_keys: "object_keys example_tiles_by_state = [''10'', ''X'', ''A'']"
  by (simp add: object_keys_def is_array_index_def is_digit_def digits_value_def
      example_tiles_by_state_def)

lemma example_max: "max_tile_y example_tiles = Fin 1"
  by (simp add: max_tile_y_def example_tiles_def)

lemma example_tile_features:
  "tile_features example_center example_points (example_names ()) example_tiles example_dataset =
     Inr example_features"
proof -
  have "map_result
      (state_feature example_center example_points (example_names ()) example_dataset (Fin 1)
         example_tiles_by_state)
      [''10'', ''X'', ''A''] = Inr example_features"
    by (simp add: state_feature_def state_geometry_def tile_ring_def get_property_def
        example_tiles_by_state_def example_center_def example_points_def example_names_def
        example_dataset_def example_features_def round_double_small Let_def)
  then show ?thesis
    by (simp add: tile_features_def example_aggregate example_max example_keys)
qed

text \<open>
  Claim C5, as amended.  When no tile carries a region id that is the name of a property
  inherited from \<open>Object.prototype\<close>, the aggregation returns an object that maps every
  region id occurring in the tiles to the list of its tiles in input order and every
  other dataset id (not such an inherited name) to \<open>null\<close>.  Every key is there once.  The
  keys are created in the order of first appearance in the tiles, followed by the
  dataset-only ids in dataset order.  \<open>Object.keys\<close> iterates the keys that are array
  indices first, in ascending numeric order, and the other keys after them in creation
  order; when no key is an array index, that is the insertion order.
\<close>

theorem aggregation_of_tiles_and_dataset:
  assumes "\<forall>t \<in> set tiles. tile_id t \<notin> set object_prototype_keys"
  shows "\<exists>tilesByState. aggregate tiles dataset = Inr tilesByState \<and>
    (\<forall>k \<in> tile_id ` set tiles. map_of tilesByState k = Some (Some (tiles_of k tiles))) \<and>
    (\<forall>k \<in> fst ` set dataset. k \<notin> tile_id ` set tiles \<longrightarrow> k \<notin> set object_prototype_keys \<longrightarrow>
        map_of tilesByState k = Some None) \<and>
    distinct (map fst tilesByState) \<and>
    map fst tilesByState =
      first_appearances
        (map tile_id tiles @ filter (\<lambda>k. k \<notin> set object_prototype_keys) (map fst dataset)) \<and>
    object_keys tilesByState =
      sort_key digits_value (filter is_array_index (map fst tilesByState)) @
      filter (\<lambda>k. \<not> is_array_index k) (map fst tilesByState) \<and>
    (list_all (\<lambda>k. \<not> is_array_index k) (map fst tilesByState) \<longrightarrow>
       object_keys tilesByState = map fst tilesByState)"
proof -
  from aggregate_succeeds [OF assms] obtain obj where agg: "aggregate tiles dataset = Inr obj"
    by blast
  note keys = aggregate_keys [OF agg]
  have "map_of obj k = Some (Some (tiles_of k tiles))" if "k \<in> tile_id ` set tiles" for k
    using aggregate_tiles_value [OF agg, of k] that by (simp add: tiles_of_empty)
  moreover have "map_of obj k = Some None"
    if "k \<in> fst ` set dataset" "k \<notin> tile_id ` set tiles" "k \<notin> set object_prototype_keys" for k
    using aggregate_null_value [OF agg, of k] that by (simp add: tiles_of_empty)
  moreover have "distinct (map fst obj)"
    unfolding keys by (rule distinct_first_appearances)
  moreover have "object_keys obj =
      sort_key digits_value (filter is_array_index (map fst obj)) @
      filter (\<lambda>k. \<not> is_array_index k) (map fst obj)"
    by (simp add: object_keys_def)
  moreover have "object_keys obj = map fst obj"
    if "list_all (\<lambda>k. \<not> is_array_index k) (map fst obj)"
    using that by (rule object_keys_no_index)
  ultimately show ?thesis using agg keys by blast
qed

theorem aggregation_of_tiles_and_dataset_witness:
  "aggregate example_tiles example_dataset = Inr example_tiles_by_state \<and>
   map_of example_tiles_by_state ''X'' = Some (Some (tiles_of ''X'' example_tiles)) \<and>
   map_of example_tiles_by_state ''A'' = Some None \<and>
   distinct (map fst example_tiles_by_state) \<and>
   map fst example_tiles_by_state =
     first_appearances
       (map tile_id example_tiles @
        filter (\<lambda>k. k \<notin> set object_prototype_keys) (map fst example_dataset))"
proof -
  have ok: "\<forall>t \<in> set example_tiles. tile_id t \<notin> set object_prototype_keys"
    by (simp add: example_tiles_def object_prototype_keys_def)
  from aggregation_of_tiles_and_dataset [OF ok, of example_dataset] obtain obj where
    agg: "aggregate example_tiles example_dataset = Inr obj"
    and t: "\<forall>k \<in> tile_id ` set example_tiles. map_of obj k = Some (Some (tiles_of k example_tiles))"
    and d: "\<forall>k \<in> fst ` set example_dataset. k \<notin> tile_id ` set example_tiles \<longrightarrow>
        k \<notin> set object_prototype_keys \<longrightarrow> map_of obj k = Some None"
    and dist: "distinct (map fst obj)"
    and keys: "map fst obj =
      first_appearances
        (map tile_id example_tiles @
         filter (\<lambda>k. k \<notin> set object_prototype_keys) (map fst example_dataset))"
    by blast
  have obj: "obj = example_tiles_by_state" using agg example_aggregate by simp
  have x: "''X'' \<in> tile_id ` set example_tiles" by (simp add: example_tiles_def)
  have a: "''A'' \<in> fst ` set example_dataset" "''A'' \<notin> tile_id ` set example_tiles"
    "''A'' \<notin> set object_prototype_keys"
    by (simp_all add: example_dataset_def example_tiles_def object_prototype_keys_def)
  from t x have "map_of obj ''X'' = Some (Some (tiles_of ''X'' example_tiles))" by blast
  moreover from d a have "map_of obj ''A'' = Some None" by blast
  ultimately show ?thesis using agg dist keys unfolding obj by blast
qed

text \<open>
  Claim C5 as stated fails.  With tiles for \<open>X\<close>, \<open>X\<close>, \<open>10\<close> and the dataset ids \<open>X\<close>,
  \<open>10\<close>, \<open>A\<close>, \<open>toString\<close>, the keys are iterated as \<open>10\<close>, \<open>X\<close>, \<open>A\<close>: the array
  index \<open>10\<close> comes before \<open>X\<close>, which was inserted first, and the dataset id
  \<open>toString\<close>, which every object inherits, is not a key at all.
\<close>

theorem key_order_counterexample:
  "aggregate example_tiles example_dataset = Inr example_tiles_by_state \<and>
   object_keys example_tiles_by_state = [''10'', ''X'', ''A''] \<and>
   first_appearances (map tile_id example_tiles @ map fst example_dataset) =
     [''X'', ''10'', ''A'', ''toString'']"
proof -
  have "first_appearances (map tile_id example_tiles @ map fst example_dataset) =
     [''X'', ''10'', ''A'', ''toString'']"
    by (simp add: example_tiles_def example_dataset_def)
  then show ?thesis using example_aggregate example_keys by blast
qed

text \<open>
  Claim C6.  Whenever the features are built, there is one feature per key of the
  aggregation result, in key order, with the key as its id, the name of the geography
  table and the value of the first matching dataset entry.  A region with no tile has the
  geometry \<open>null\<close>; a region with exactly one tile has a \<open>Polygon\<close> of that tile's closed
  ring; a region with \<open>N \<ge> 2\<close> tiles has a \<open>MultiPolygon\<close> of \<open>N\<close> parts, each the closed ring
  of one tile, in tile order.
\<close>

theorem geometry_type_by_tile_count:
  assumes "tile_features tileCenterPoint getPointsAround geoCodeToName tiles dataset = Inr fs"
  shows "\<exists>tilesByState. aggregate tiles dataset = Inr tilesByState \<and>
      map region_id fs = object_keys tilesByState \<and>
      (\<forall>f \<in> set fs.
         feature_type f = ''Feature'' \<and>
         geoCodeToName (region_id f) = Some (name (properties f)) \<and>
         find (\<lambda>d. fst d = region_id f) dataset =
           Some (region_id f, tilegramValue (properties f)) \<and>
         (length (tiles_of (region_id f) tiles) = 0 \<longrightarrow> feature_geometry f = None) \<and>
         (length (tiles_of (region_id f) tiles) = 1 \<longrightarrow>
            (\<exists>ring. feature_geometry f = Some (Polygon [ring]) \<and> closed_ring ring \<and>
               tile_ring tileCenterPoint getPointsAround (max_tile_y tiles)
                 (hd (tiles_of (region_id f) tiles)) = Inr ring)) \<and>
         (2 \<le> length (tiles_of (region_id f) tiles) \<longrightarrow>
            (\<exists>rings. feature_geometry f = Some (MultiPolygon (map (\<lambda>ring. [ring]) rings)) \<and>
               length rings = length (tiles_of (region_id f) tiles) \<and>
               list_all2
                 (\<lambda>t ring. tile_ring tileCenterPoint getPointsAround (max_tile_y tiles) t = Inr ring \<and>
                    closed_ring ring)
                 (tiles_of (region_id f) tiles) rings)))"
proof -
  let ?m = "max_tile_y tiles"
  from tile_features_Inr [OF assms] obtain obj where agg: "aggregate tiles dataset = Inr obj"
    and all: "list_all2
       (\<lambda>k f. state_feature tileCenterPoint getPointsAround geoCodeToName dataset ?m obj k = Inr f)
       (object_keys obj) fs"
    by blast
  have len: "length fs = length (object_keys obj)" using all by (simp add: list_all2_lengthD)
  have nth: "state_feature tileCenterPoint getPointsAround geoCodeToName dataset ?m obj
       (object_keys obj ! i) = Inr (fs ! i)" if "i < length fs" for i
    using all that by (simp add: list_all2_conv_all_nth)
  have ids: "map region_id fs = object_keys obj"
  proof (rule nth_equalityI)
    show "length (map region_id fs) = length (object_keys obj)" using len by simp
  next
    fix i assume "i < length (map region_id fs)"
    then have i: "i < length fs" by simp
    from state_feature_Inr [OF nth [OF i]] show "map region_id fs ! i = object_keys obj ! i"
      using i by auto
  qed
  have each: "feature_type f = ''Feature'' \<and>
         geoCodeToName (region_id f) = Some (name (properties f)) \<and>
         find (\<lambda>d. fst d = region_id f) dataset =
           Some (region_id f, tilegramValue (properties f)) \<and>
         (length (tiles_of (region_id f) tiles) = 0 \<longrightarrow> feature_geometry f = None) \<and>
         (length (tiles_of (region_id f) tiles) = 1 \<longrightarrow>
            (\<exists>ring. feature_geometry f = Some (Polygon [ring]) \<and> closed_ring ring \<and>
               tile_ring tileCenterPoint getPointsAround ?m
                 (hd (tiles_of (region_id f) tiles)) = Inr ring)) \<and>
         (2 \<le> length (tiles_of (region_id f) tiles) \<longrightarrow>
            (\<exists>rings. feature_geometry f = Some (MultiPolygon (map (\<lambda>ring. [ring]) rings)) \<and>
               length rings = length (tiles_of (region_id f) tiles) \<and>
               list_all2
                 (\<lambda>t ring. tile_ring tileCenterPoint getPointsAround ?m t = Inr ring \<and>
                    closed_ring ring)
                 (tiles_of (region_id f) tiles) rings))"
    if "f \<in> set fs" for f
  proof -
    from that obtain i where i: "i < length fs" and f: "f = fs ! i"
      by (auto simp: in_set_conv_nth)
    let ?k = "object_keys obj ! i"
    let ?ts = "tiles_of ?k tiles"
    from state_feature_Inr [OF nth [OF i]] obtain st where st: "map_of obj ?k = Some st"
      and g: "state_geometry tileCenterPoint getPointsAround ?m st = Inr (feature_geometry f)"
      and ty: "feature_type f = ''Feature''" and k: "region_id f = ?k"
      and n: "geoCodeToName ?k = Some (name (properties f))"
      and d: "find (\<lambda>d. fst d = ?k) dataset = Some (?k, tilegramValue (properties f))"
      unfolding f by blast
    have "?k \<in> set (object_keys obj)" using i len by simp
    then have "?k \<in> set (map fst obj)" by (simp only: object_keys_set)
    from aggregate_value [OF agg this] st
    have st_eq: "st = (if ?ts = [] then None else Some ?ts)" by simp
    have zero: "feature_geometry f = None" if "length ?ts = 0"
      using g st_eq that by (simp add: state_geometry_def)
    have some: "\<exists>rings. list_all2
          (\<lambda>t ring. tile_ring tileCenterPoint getPointsAround ?m t = Inr ring \<and> closed_ring ring)
          ?ts rings \<and>
        feature_geometry f =
          Some (if length ?ts \<noteq> 1 then MultiPolygon (map (\<lambda>ring. [ring]) rings) else Polygon rings)"
      if "?ts \<noteq> []"
      using state_geometry_Some [of tileCenterPoint getPointsAround ?m ?ts "feature_geometry f"]
        g st_eq that by simp
    have one: "\<exists>ring. feature_geometry f = Some (Polygon [ring]) \<and> closed_ring ring \<and>
        tile_ring tileCenterPoint getPointsAround ?m (hd ?ts) = Inr ring"
      if l: "length ?ts = 1"
    proof -
      from l obtain t where t: "?ts = [t]" by (cases ?ts) auto
      from some t obtain rings where
        r: "list_all2
          (\<lambda>t ring. tile_ring tileCenterPoint getPointsAround ?m t = Inr ring \<and> closed_ring ring)
          [t] rings"
        and gg: "feature_geometry f = Some (Polygon rings)"
        by auto
      from r obtain ring where "rings = [ring]"
        "tile_ring tileCenterPoint getPointsAround ?m t = Inr ring" "closed_ring ring"
        by (auto simp: list_all2_Cons1)
      then show ?thesis using gg t by simp
    qed
    have many: "\<exists>rings. feature_geometry f = Some (MultiPolygon (map (\<lambda>ring. [ring]) rings)) \<and>
        length rings = length ?ts \<and>
        list_all2
          (\<lambda>t ring. tile_ring tileCenterPoint getPointsAround ?m t = Inr ring \<and> closed_ring ring)
          ?ts rings"
      if l: "2 \<le> length ?ts"
    proof -
      from l have ne: "?ts \<noteq> []" by auto
      from some [OF ne] l obtain rings where
        r: "list_all2
          (\<lambda>t ring. tile_ring tileCenterPoint getPointsAround ?m t = Inr ring \<and> closed_ring ring)
          ?ts rings"
        and gg: "feature_geometry f = Some (MultiPolygon (map (\<lambda>ring. [ring]) rings))"
        by auto
      have "length rings = length ?ts" using r by (simp add: list_all2_lengthD)
      then show ?thesis using r gg by blast
    qed
    show ?thesis unfolding k using ty n d zero one many by blast
  qed
  show ?thesis using agg ids each by blast
qed

theorem geometry_type_by_tile_count_witness:
  "tile_features example_center example_points (example_names ()) example_tiles example_dataset =
     Inr example_features \<and>
   length (tiles_of ''10'' example_tiles) = 1 \<and>
   (\<exists>ring. feature_geometry (example_features ! 0) = Some (Polygon [ring]) \<and> closed_ring ring) \<and>
   length (tiles_of ''X'' example_tiles) = 2 \<and>
   (\<exists>rings. feature_geometry (example_features ! 1) =
        Some (MultiPolygon (map (\<lambda>ring. [ring]) rings)) \<and> length rings = 2) \<and>
   length (tiles_of ''A'' example_tiles) = 0 \<and>
   feature_geometry (example_features ! 2) = None \<and>
   region_id (example_features ! 2) = ''A'' \<and>
   tilegramValue (properties (example_features ! 2)) = 1"
proof -
  from geometry_type_by_tile_count [OF example_tile_features] have all:
    "\<forall>f \<in> set example_features.
         feature_type f = ''Feature'' \<and>
         example_names () (region_id f) = Some (name (properties f)) \<and>
         find (\<lambda>d. fst d = region_id f) example_dataset =
           Some (region_id f, tilegramValue (properties f)) \<and>
         (length (tiles_of (region_id f) example_tiles) = 0 \<longrightarrow> feature_geometry f = None) \<and>
         (length (tiles_of (region_id f) example_tiles) = 1 \<longrightarrow>
            (\<exists>ring. feature_geometry f = Some (Polygon [ring]) \<and> closed_ring ring \<and>
               tile_ring example_center example_points (max_tile_y example_tiles)
                 (hd (tiles_of (region_id f) example_tiles)) = Inr ring)) \<and>
         (2 \<le> length (tiles_of (region_id f) example_tiles) \<longrightarrow>
            (\<exists>rings. feature_geometry f = Some (MultiPolygon (map (\<lambda>ring. [ring]) rings)) \<and>
               length rings = length (tiles_of (region_id f) example_tiles) \<and>
               list_all2
                 (\<lambda>t ring. tile_ring example_center example_points (max_tile_y example_tiles) t =
                      Inr ring \<and> closed_ring ring)
                 (tiles_of (region_id f) example_tiles) rings))"
    by blast
  have mem: "example_features ! 0 \<in> set example_features" "example_features ! 1 \<in> set example_features"
    "example_features ! 2 \<in> set example_features"
    by (simp_all add: example_features_def)
  have ids: "region_id (example_features ! 0) = ''10''" "region_id (example_features ! 1) = ''X''"
    "region_id (example_features ! 2) = ''A''"
    by (simp_all add: example_features_def)
  have n: "length (tiles_of ''10'' example_tiles) = 1" "length (tiles_of ''X'' example_tiles) = 2"
    "length (tiles_of ''A'' example_tiles) = 0"
    by (simp_all add: tiles_of_def example_tiles_def)
  from all mem(1) ids(1) n(1)
  have p: "\<exists>ring. feature_geometry (example_features ! 0) = Some (Polygon [ring]) \<and> closed_ring ring"
    by fastforce
  from all mem(2) ids(2) n(2)
  have m: "\<exists>rings. feature_geometry (example_features ! 1) =
        Some (MultiPolygon (map (\<lambda>ring. [ring]) rings)) \<and> length rings = 2"
    by fastforce
  from all mem(3) ids(3) n(3)
  have z: "feature_geometry (example_features ! 2) = None" by fastforce
  from all mem(3) ids(3)
  have "find (\<lambda>d. fst d = ''A'') example_dataset =
      Some (''A'', tilegramValue (properties (example_features ! 2)))"
    by fastforce
  then have v: "tilegramValue (properties (example_features ! 2)) = 1"
    by (simp add: example_dataset_def)
  show ?thesis using example_tile_features n p m z ids(3) v by blast
qed

text \<open>
  Claim C7.  If a region id that occurs in the tiles, or a dataset id that becomes a key of
  the aggregation, has no entry in the geography table or no entry in the dataset, the
  export throws and returns nothing.  The exception JavaScript raises is a TypeError.
\<close>

theorem missing_lookup_aborts_export:
  assumes "k \<in> tile_id ` set tiles \<or> (k \<in> fst ` set dataset \<and> k \<notin> set object_prototype_keys)"
    and "getGeoCodeHash geography k = None \<or> k \<notin> fst ` set dataset"
  shows "toTopoJson topology version getTileDimensions tileCenterPoint getPointsAround
           getGeoCodeHash tiles dataset metricPerTile geography = Inl TypeError"
proof -
  have "tile_features tileCenterPoint getPointsAround (getGeoCodeHash geography) tiles dataset =
      Inl TypeError"
  proof (cases "aggregate tiles dataset")
    case (Inl e)
    then show ?thesis by (cases e) (simp add: tile_features_def)
  next
    case (Inr obj)
    have "k \<in> set (map fst obj)" using aggregate_key_set [OF Inr] assms(1) by auto
    then have "k \<in> set (object_keys obj)" by (simp only: object_keys_set)
    moreover have "state_feature tileCenterPoint getPointsAround (getGeoCodeHash geography)
        dataset (max_tile_y tiles) obj k = Inl TypeError"
      using assms(2) by (rule state_feature_lookup_fails)
    ultimately have "map_result
        (state_feature tileCenterPoint getPointsAround (getGeoCodeHash geography) dataset
           (max_tile_y tiles) obj)
        (object_keys obj) = Inl TypeError"
      by (rule map_result_Inl)
    then show ?thesis using Inr by (simp add: tile_features_def)
  qed
  then show ?thesis by (simp add: toTopoJson_def)
qed

theorem missing_lookup_aborts_export_witness:
  "toTopoJson (\<lambda>objs. objs) ''1.0.0'' (1::nat) example_center example_points example_names
     [\<lparr> tile_id = ''Z'', position = (Fin 0, Fin 0) \<rparr>] example_dataset (3::nat) () =
   Inl TypeError"
proof -
  have k: "''Z'' \<in> tile_id ` set [\<lparr> tile_id = ''Z'', position = (Fin 0, Fin 0) \<rparr>] \<or>
      (''Z'' \<in> fst ` set example_dataset \<and> ''Z'' \<notin> set object_prototype_keys)"
    by simp
  have l: "example_names () ''Z'' = None \<or> ''Z'' \<notin> fst ` set example_dataset"
    by (simp add: example_dataset_def)
  from missing_lookup_aborts_export
    [where k = "''Z''" and getGeoCodeHash = example_names and geography = "()", OF k l]
  show ?thesis .
qed

text \<open>
  With no tiles, and a dataset whose region ids all have an entry in the geography table
  and are not names inherited from \<open>Object.prototype\<close>, the export returns.  The features
  handed to the topology builder are the same whatever the grid geometry computes, so no
  tile geometry enters them; there is exactly one feature for each region id of the
  dataset, each with geometry \<open>null\<close>, its name and its dataset value.
\<close>

lemma export_without_tiles:
  fixes tileCenterPoint tileCenterPoint' :: "jsnum \<times> jsnum \<Rightarrow> 'c"
    and getPointsAround getPointsAround' :: "'c \<Rightarrow> bool \<Rightarrow> ('n \<times> 'n) list"
  assumes "\<forall>d \<in> set dataset. getGeoCodeHash geography (fst d) \<noteq> None"
    and "\<forall>d \<in> set dataset. fst d \<notin> set object_prototype_keys"
  shows "\<exists>fs.
      toTopoJson topology version getTileDimensions tileCenterPoint getPointsAround
          getGeoCodeHash [] dataset metricPerTile geography =
        Inr (topology [(OBJECT_ID, \<lparr> fc_type = ''FeatureCollection'', fc_features = fs \<rparr>)],
             \<lparr> tilegramMetricPerTile = metricPerTile, tilegramVersion = version,
               tilegramTileSize = getTileDimensions, tilegramGeography = geography \<rparr>) \<and>
      tile_features tileCenterPoint' getPointsAround' (getGeoCodeHash geography) [] dataset =
        Inr fs \<and>
      set (map region_id fs) = fst ` set dataset \<and>
      distinct (map region_id fs) \<and>
      (distinct (map fst dataset) \<longrightarrow> length fs = length dataset) \<and>
      (\<forall>f \<in> set fs.
         feature_type f = ''Feature'' \<and> feature_geometry f = None \<and>
         getGeoCodeHash geography (region_id f) = Some (name (properties f)) \<and>
         find (\<lambda>d. fst d = region_id f) dataset =
           Some (region_id f, tilegramValue (properties f)))"
proof -
  let ?geo = "getGeoCodeHash geography"
  let ?obj = "foldl add_dataset_entry [] dataset"
  let ?mk = "\<lambda>k. \<lparr> feature_type = ''Feature'', feature_geometry = None, region_id = k,
      properties = \<lparr> name = the (?geo k), tilegramValue = snd (the (find (\<lambda>d. fst d = k) dataset)) \<rparr> \<rparr>"
  let ?fs = "map ?mk (object_keys ?obj)"
  have agg: "aggregate [] dataset = Inr ?obj" by (rule aggregate_no_tiles)
  have keyset: "set (map fst ?obj) = fst ` set dataset"
    using aggregate_key_set [OF agg] assms(2) by auto
  have dist: "distinct (map fst ?obj)"
    unfolding aggregate_keys [OF agg] by (rule distinct_first_appearances)
  have one: "state_feature tcp gpa ?geo dataset m ?obj k = Inr (?mk k)"
    if "k \<in> set (object_keys ?obj)" for k m
      and tcp :: "jsnum \<times> jsnum \<Rightarrow> 'c" and gpa :: "'c \<Rightarrow> bool \<Rightarrow> ('n \<times> 'n) list"
  proof -
    from that have own: "k \<in> set (map fst ?obj)" by (simp only: object_keys_set)
    have v: "map_of ?obj k = Some None"
      using aggregate_value [OF agg own] by (simp add: tiles_of_def)
    from own keyset have kd: "k \<in> fst ` set dataset" by simp
    then obtain n where n: "?geo k = Some n" using assms(1) by auto
    from find_in_dataset [OF kd] obtain v' where f: "find (\<lambda>d. fst d = k) dataset = Some (k, v')"
      by blast
    show ?thesis
      using v n f by (simp add: state_feature_def get_property_def state_geometry_def)
  qed
  have feats: "tile_features tcp gpa ?geo [] dataset = Inr ?fs"
    for tcp :: "jsnum \<times> jsnum \<Rightarrow> 'c" and gpa :: "'c \<Rightarrow> bool \<Rightarrow> ('n \<times> 'n) list"
  proof -
    have "map_result (state_feature tcp gpa ?geo dataset (max_tile_y []) ?obj)
        (object_keys ?obj) = Inr ?fs"
      by (rule map_result_all) (rule one)
    then show ?thesis using agg by (simp add: tile_features_def)
  qed
  have top: "toTopoJson topology version getTileDimensions tileCenterPoint getPointsAround
          getGeoCodeHash [] dataset metricPerTile geography =
        Inr (topology [(OBJECT_ID, \<lparr> fc_type = ''FeatureCollection'', fc_features = ?fs \<rparr>)],
             \<lparr> tilegramMetricPerTile = metricPerTile, tilegramVersion = version,
               tilegramTileSize = getTileDimensions, tilegramGeography = geography \<rparr>)"
    using feats [of tileCenterPoint getPointsAround] by (simp add: toTopoJson_def)
  have ids: "map region_id ?fs = object_keys ?obj" by (simp add: comp_def)
  have s: "set (map region_id ?fs) = fst ` set dataset"
    unfolding ids object_keys_set keyset ..
  have d: "distinct (map region_id ?fs)"
    unfolding ids using dist by (rule object_keys_distinct)
  have l: "length ?fs = length dataset" if "distinct (map fst dataset)"
  proof -
    have "card (set (map region_id ?fs)) = card (set (map fst dataset))" using s by simp
    then have "length (map region_id ?fs) = length (map fst dataset)"
      using distinct_card [OF d] distinct_card [OF that] by simp
    then show ?thesis by simp
  qed
  have each: "feature_type f = ''Feature'' \<and> feature_geometry f = None \<and>
         ?geo (region_id f) = Some (name (properties f)) \<and>
         find (\<lambda>d. fst d = region_id f) dataset =
           Some (region_id f, tilegramValue (properties f))"
    if "f \<in> set ?fs" for f
  proof -
    from that obtain k where k: "k \<in> set (object_keys ?obj)" and f: "f = ?mk k" by auto
    from k have "k \<in> fst ` set dataset" using keyset by (simp only: object_keys_set)
    then obtain n v' where "?geo k = Some n" "find (\<lambda>d. fst d = k) dataset = Some (k, v')"
      using assms(1) find_in_dataset [of k dataset] by auto
    then show ?thesis using f by simp
  qed
  show ?thesis
    using top feats [of tileCenterPoint' getPointsAround'] s d l each by blast
qed

lemma export_without_tiles_example:
  "\<exists>fs. toTopoJson (\<lambda>objs. objs) ''1.0.0'' (1::nat) example_center example_points example_names
          [] [(''A'', 1::nat), (''10'', 7)] (3::nat) () =
        Inr ([(OBJECT_ID, \<lparr> fc_type = ''FeatureCollection'', fc_features = fs \<rparr>)],
             \<lparr> tilegramMetricPerTile = 3, tilegramVersion = ''1.0.0'',
               tilegramTileSize = 1, tilegramGeography = () \<rparr>) \<and>
      set (map region_id fs) = {''A'', ''10''} \<and>
      length fs = 2"
proof -
  let ?dataset = "[(''A'', 1::nat), (''10'', 7)]"
  have g: "\<forall>d \<in> set ?dataset. example_names () (fst d) \<noteq> None"
    by (simp add: example_names_def)
  have p: "\<forall>d \<in> set ?dataset. fst d \<notin> set object_prototype_keys"
    by (simp add: object_prototype_keys_def)
  have d: "distinct (map fst ?dataset)" by simp
  from export_without_tiles
    [where getGeoCodeHash = example_names and geography = "()" and topology = "\<lambda>objs. objs"
       and version = "''1.0.0''" and getTileDimensions = "1::nat"
       and tileCenterPoint = example_center and getPointsAround = example_points
       and tileCenterPoint' = example_center and getPointsAround' = example_points
       and metricPerTile = "3::nat", OF g p]
  obtain fs where
    top: "toTopoJson (\<lambda>objs. objs) ''1.0.0'' (1::nat) example_center example_points example_names
          [] ?dataset (3::nat) () =
        Inr ([(OBJECT_ID, \<lparr> fc_type = ''FeatureCollection'', fc_features = fs \<rparr>)],
             \<lparr> tilegramMetricPerTile = 3, tilegramVersion = ''1.0.0'',
               tilegramTileSize = 1, tilegramGeography = () \<rparr>)"
    and ids: "set (map region_id fs) = fst ` set ?dataset"
    and len: "distinct (map fst ?dataset) \<longrightarrow> length fs = length ?dataset"
    by blast
  have "set (map region_id fs) = {''A'', ''10''}" using ids by simp
  moreover have "length fs = 2" using len d by simp
  ultimately show ?thesis using top by blast
qed

text \<open>
  Claim C9.  With no tiles every dataset entry should give one feature with its id, the
  geometry \<open>null\<close> and its properties, and the comment above the dataset loop says that
  all entries of the dataset are added to the object.  For the dataset entry
  \<open>["toString", 1]\<close> the code does not do so: \<open>tilesByState["toString"]\<close> is the function
  every object inherits, which is truthy, so the entry is never added, and the export
  returns a feature collection without any feature, whatever the geography table holds.
\<close>

theorem export_without_tiles_drops_inherited_id:
  "toTopoJson topology version getTileDimensions tileCenterPoint getPointsAround getGeoCodeHash
     [] [(''toString'', 1::nat)] metricPerTile geography =
   Inr (topology [(OBJECT_ID, \<lparr> fc_type = ''FeatureCollection'', fc_features = [] \<rparr>)],
        \<lparr> tilegramMetricPerTile = metricPerTile, tilegramVersion = version,
          tilegramTileSize = getTileDimensions, tilegramGeography = geography \<rparr>)"
  by (simp add: toTopoJson_def tile_features_def aggregate_def add_dataset_entry_def
      get_property_def object_prototype_keys_def object_keys_def)

end
